theory Spec2Isabelle
  imports Complex_Main "HOL-Library.Monad_Syntax"
begin

section \<open>The engine of \<^verbatim>\<open>pacman_frontend/src/App.js\<close>\<close>

text \<open>
  The theory embeds \<^verbatim>\<open>createWorld\<close> and its closures (\<^verbatim>\<open>cellAt\<close>, \<^verbatim>\<open>passable\<close>,
  \<^verbatim>\<open>wrap\<close>, \<^verbatim>\<open>dirVec\<close>, \<^verbatim>\<open>centerCoord\<close>, \<^verbatim>\<open>input\<close>, \<^verbatim>\<open>update\<close>) together with
  \<^verbatim>\<open>ghost\<close>, \<^verbatim>\<open>countPellets\<close> and the two \<^verbatim>\<open>onClear\<close> callbacks that \<^verbatim>\<open>App\<close> hands
  to \<^verbatim>\<open>createWorld\<close>.

  Conventions of the embedding.
  \<^item> A JavaScript number is a \<^typ>\<open>real\<close> (an \<^typ>\<open>int\<close> where the source only ever holds the
    result of \<^verbatim>\<open>Math.floor\<close> or an array length): arithmetic is exact, rounding of
    IEEE doubles is not modelled.
  \<^item> The direction strings \<^verbatim>\<open>'left'\<close>, \<^verbatim>\<open>'right'\<close>, \<^verbatim>\<open>'up'\<close>, \<^verbatim>\<open>'down'\<close> are the
    datatype \<open>dir\<close>; no other string is ever stored in a \<^verbatim>\<open>dir\<close> or \<^verbatim>\<open>nx\<close> field.
  \<^item> The maze is a list of rows of cell codes (0 empty, 1 wall, 2 pellet, 3 power).
    Rows are separate arrays, as \<^verbatim>\<open>baseMaze.map(r => r.slice())\<close> makes them.
  \<^item> The object \<^verbatim>\<open>state\<close> is mutated in place by the source; the embedding passes the
    record along and returns the new one.
  \<^item> The callbacks \<^verbatim>\<open>onScore\<close>, \<^verbatim>\<open>onLifeLost\<close>, \<^verbatim>\<open>onClear\<close> become the list of events an
    update emits, in call order. \<^verbatim>\<open>onClear\<close> of \<^verbatim>\<open>App\<close> also writes to the maze array
    the engine reads, so its effect on the maze is a parameter of \<open>update\<close>.
  \<^item> Reading \<^verbatim>\<open>maze[cy][cx]\<close> with \<^verbatim>\<open>maze[cy]\<close> undefined throws a TypeError that
    nothing catches: the result \<open>None\<close>. A defined row read outside its length
    gives \<^verbatim>\<open>undefined\<close>: the cell \<open>None\<close>.
  \<^item> \<^verbatim>\<open>Math.random()\<close> is the parameter \<open>rnd\<close>: \<open>rnd idx\<close> is the number drawn in the
    turn of ghost \<open>idx\<close> (at most one draw a turn), a real in \<open>[0, 1)\<close>.
  \<^item> \<^verbatim>\<open>blip\<close> only drives the audio device and is left out.
\<close>

subsection \<open>Data\<close>

datatype dir = Left | Right | Up | Down

datatype event = Score int | LifeLost | Clear

type_synonym maze_t = "nat list list"

record Config =
  POWER_DURATION_MS :: real
  GHOST_SPEED :: real
  PACMAN_SPEED :: real

record Pacman =
  p_x :: real
  p_y :: real
  p_dir :: dir
  p_nx :: dir
  p_speed :: real
  p_alive :: bool

record Ghost =
  g_name :: string
  g_x :: real
  g_y :: real
  g_dir :: dir
  g_speed :: real
  g_color :: string

text \<open>\<open>cols\<close> and \<open>rows\<close> are the constants of the closure, fixed by \<^verbatim>\<open>createWorld\<close>.\<close>

record State =
  cols :: int
  rows :: int
  maze :: maze_t
  pellets :: int
  powerTimer :: real
  ghosts :: "Ghost list"
  pacman :: Pacman

text \<open>The configuration \<^verbatim>\<open>App\<close> builds (the fields the engine reads).\<close>

definition App_config :: Config where
  "App_config = \<lparr>POWER_DURATION_MS = 6000, GHOST_SPEED = 0.9, PACMAN_SPEED = 1.1\<rparr>"

subsection \<open>Helpers of the closure\<close>

definition ghost :: "string \<Rightarrow> real \<Rightarrow> real \<Rightarrow> dir \<Rightarrow> real \<Rightarrow> string \<Rightarrow> Ghost" where
  "ghost name gx gy d sp color =
     \<lparr>g_name = name, g_x = gx, g_y = gy, g_dir = d, g_speed = sp, g_color = color\<rparr>"

text \<open>
  \<^verbatim>\<open>countPellets\<close>: both loops run over \<^verbatim>\<open>maze.length\<close> rows and \<^verbatim>\<open>maze[0].length\<close>
  columns; a row shorter than the first reads \<^verbatim>\<open>undefined\<close> there, which is not 2.
  On the empty maze no row is visited and \<^verbatim>\<open>maze[0]\<close> is never read.
\<close>

definition countPellets :: "maze_t \<Rightarrow> nat" where
  "countPellets m =
     sum_list (map (\<lambda>row. length (filter (\<lambda>v. v = 2) (take (length (m ! 0)) row))) m)"

definition wrap :: "'a::linordered_idom \<Rightarrow> 'a \<Rightarrow> 'a" where
  "wrap v mx = (if v < 0 then mx + v else if v \<ge> mx then v - mx else v)"

fun dirVec :: "dir \<Rightarrow> int \<times> int" where
  "dirVec Left = (-1, 0)"
| "dirVec Right = (1, 0)"
| "dirVec Up = (0, -1)"
| "dirVec Down = (0, 1)"

text \<open>\<^verbatim>\<open>Math.round(v * 100) / 100\<close>; \<^verbatim>\<open>Math.round\<close> is \<open>\<lfloor>v + 1/2\<rfloor>\<close>, which is \<^const>\<open>round\<close>.\<close>

definition centerCoord :: "real \<Rightarrow> real" where
  "centerCoord v = real_of_int (round (v * 100)) / 100"

text \<open>\<^verbatim>\<open>maze[cy][cx]\<close>.\<close>

definition maze_at :: "maze_t \<Rightarrow> int \<Rightarrow> int \<Rightarrow> nat option option" where
  "maze_at m cy cx =
     (if 0 \<le> cy \<and> cy < int (length m)
      then Some (let row = m ! nat cy
                 in if 0 \<le> cx \<and> cx < int (length row) then Some (row ! nat cx) else None)
      else None)"

text \<open>\<^verbatim>\<open>maze[cy][cx] = v\<close>, used by the source only on a cell it has just read.\<close>

definition maze_set :: "maze_t \<Rightarrow> int \<Rightarrow> int \<Rightarrow> nat \<Rightarrow> maze_t" where
  "maze_set m cy cx v = m[nat cy := (m ! nat cy)[nat cx := v]]"

definition cellAt :: "State \<Rightarrow> real \<Rightarrow> real \<Rightarrow> nat option option" where
  "cellAt st x y =
     (let cx = wrap \<lfloor>x\<rfloor> (cols st);
          cy = wrap \<lfloor>y\<rfloor> (rows st)
      in maze_at (maze st) cy cx)"

definition passable :: "State \<Rightarrow> real \<Rightarrow> real \<Rightarrow> bool option" where
  "passable st x y = map_option (\<lambda>c. c \<noteq> Some 1) (cellAt st x y)"

definition input :: "string \<Rightarrow> State \<Rightarrow> State" where
  "input key st =
     (let s1 = (if key = ''arrowleft'' \<or> key = ''a''
                then st\<lparr>pacman := (pacman st)\<lparr>p_nx := Left\<rparr>\<rparr> else st);
          s2 = (if key = ''arrowright'' \<or> key = ''d''
                then s1\<lparr>pacman := (pacman s1)\<lparr>p_nx := Right\<rparr>\<rparr> else s1);
          s3 = (if key = ''arrowup'' \<or> key = ''w''
                then s2\<lparr>pacman := (pacman s2)\<lparr>p_nx := Up\<rparr>\<rparr> else s2)
      in (if key = ''arrowdown'' \<or> key = ''s''
          then s3\<lparr>pacman := (pacman s3)\<lparr>p_nx := Down\<rparr>\<rparr> else s3))"

subsection \<open>\<^verbatim>\<open>createWorld\<close>\<close>

text \<open>\<^verbatim>\<open>maze[0].length\<close> throws on an empty maze.\<close>

definition createWorld :: "Config \<Rightarrow> maze_t \<Rightarrow> State option" where
  "createWorld cfg m =
     (if m = [] then None
      else Some
         \<lparr>cols = int (length (m ! 0)), rows = int (length m), maze = m,
          pellets = int (countPellets m), powerTimer = 0,
          ghosts = [ghost ''blinky'' 13 14 Left 1.0 ''#ff0000'',
                    ghost ''pinky'' 14 14 Right 0.95 ''#ffb8ff'',
                    ghost ''inky'' 12 14 Up 0.95 ''#00ffff'',
                    ghost ''clyde'' 15 14 Down 0.9 ''#ffb852''],
          pacman = \<lparr>p_x = 14, p_y = 23, p_dir = Left, p_nx = Left,
                    p_speed = PACMAN_SPEED cfg, p_alive = True\<rparr>\<rparr>)"

subsection \<open>The callbacks \<^verbatim>\<open>onClear\<close> of \<^verbatim>\<open>App\<close>\<close>

text \<open>
  The world built when the component mounts: \<^verbatim>\<open>onClear\<close> raises the level and turns
  every cell 0 within the first \<^verbatim>\<open>maze[0].length\<close> columns into 2. It does not touch
  \<^verbatim>\<open>state.pellets\<close>.
\<close>

definition onClear_mount :: "maze_t \<Rightarrow> maze_t" where
  "onClear_mount m =
     map (\<lambda>row. map (\<lambda>v. if v = 0 then 2 else v) (take (length (m ! 0)) row)
                 @ drop (length (m ! 0)) row) m"

text \<open>The world built by \<^verbatim>\<open>restart\<close>: \<^verbatim>\<open>onClear\<close> only raises the level.\<close>

definition onClear_restart :: "maze_t \<Rightarrow> maze_t" where
  "onClear_restart m = m"

subsection \<open>\<^verbatim>\<open>update\<close>: the player\<close>

text \<open>Lines 365 to 394: turning at a tile center, the move, the snap.\<close>

definition movePacman :: "real \<Rightarrow> State \<Rightarrow> State option" where
  "movePacman dt st =
     (let p = pacman st;
          speed = p_speed p * dt * 6;
          gridX = \<lfloor>p_x p\<rfloor>;
          gridY = \<lfloor>p_y p\<rfloor>;
          centerX = real_of_int gridX + 0.5;
          centerY = real_of_int gridY + 0.5;
          nearCenter = (\<bar>p_x p - centerX\<bar> < 0.12 \<and> \<bar>p_y p - centerY\<bar> < 0.12)
      in do {
        p1 \<leftarrow> (if nearCenter
               then do {
                 ok \<leftarrow> passable st (real_of_int (gridX + fst (dirVec (p_nx p))))
                                   (real_of_int (gridY + snd (dirVec (p_nx p))));
                 Some (if ok then p\<lparr>p_dir := p_nx p\<rparr> else p)
               }
               else Some p);
        let nx = p_x p1 + real_of_int (fst (dirVec (p_dir p1))) * speed;
        let ny = p_y p1 + real_of_int (snd (dirVec (p_dir p1))) * speed;
        ok \<leftarrow> passable st (real_of_int \<lfloor>nx\<rfloor>) (real_of_int \<lfloor>ny\<rfloor>);
        Some (st\<lparr>pacman :=
                (if ok
                 then p1\<lparr>p_x := wrap nx (real_of_int (cols st)),
                         p_y := wrap ny (real_of_int (rows st))\<rparr>
                 else p1\<lparr>p_x := centerCoord centerX, p_y := centerCoord centerY\<rparr>)\<rparr>)
      })"

text \<open>Lines 396 to 413: pellet and power pellet under the player.\<close>

definition consume :: "Config \<Rightarrow> (maze_t \<Rightarrow> maze_t) \<Rightarrow> State \<Rightarrow> (State \<times> event list) option" where
  "consume cfg onClear st =
     (let p = pacman st;
          cx = \<lfloor>p_x p\<rfloor>;
          cy = \<lfloor>p_y p\<rfloor>
      in do {
        cell \<leftarrow> maze_at (maze st) cy cx;
        (if cell = Some 2
         then (let s1 = st\<lparr>maze := maze_set (maze st) cy cx 0, pellets := pellets st - 1\<rparr>
               in if pellets s1 \<le> 0
                  then Some (s1\<lparr>maze := onClear (maze s1)\<rparr>, [Score 10, Clear])
                  else Some (s1, [Score 10]))
         else if cell = Some 3
         then Some (st\<lparr>maze := maze_set (maze st) cy cx 0,
                       powerTimer := POWER_DURATION_MS cfg\<rparr>, [Score 50])
         else Some (st, []))
      })"

subsection \<open>\<^verbatim>\<open>update\<close>: the ghosts\<close>

text \<open>\<^verbatim>\<open>Array.prototype.filter\<close> with a predicate that can throw.\<close>

fun filterM :: "('a \<Rightarrow> bool option) \<Rightarrow> 'a list \<Rightarrow> 'a list option" where
  "filterM f [] = Some []"
| "filterM f (a # as) = do {
     b \<leftarrow> f a;
     bs \<leftarrow> filterM f as;
     Some (if b then a # bs else bs)
   }"

definition opposite :: "dir \<Rightarrow> dir \<Rightarrow> bool" where
  "opposite d gd \<longleftrightarrow>
     (d = Left \<and> gd = Right) \<or> (d = Right \<and> gd = Left) \<or>
     (d = Up \<and> gd = Down) \<or> (d = Down \<and> gd = Up)"

text \<open>Lines 428 to 437: the candidates that neither reverse nor hit a wall.\<close>

definition choices :: "State \<Rightarrow> Ghost \<Rightarrow> dir list option" where
  "choices st g =
     filterM (\<lambda>d. if opposite d (g_dir g) then Some False
                  else passable st (real_of_int (\<lfloor>g_x g\<rfloor> + fst (dirVec d)))
                                   (real_of_int (\<lfloor>g_y g\<rfloor> + snd (dirVec d))))
       [Left, Right, Up, Down]"

text \<open>Line 440: every direction that does not hit a wall.\<close>

definition allDirs :: "State \<Rightarrow> Ghost \<Rightarrow> dir list option" where
  "allDirs st g =
     filterM (\<lambda>d. passable st (real_of_int (\<lfloor>g_x g\<rfloor> + fst (dirVec d)))
                              (real_of_int (\<lfloor>g_y g\<rfloor> + snd (dirVec d))))
       [Left, Right, Up, Down]"

text \<open>
  \<^verbatim>\<open>xs[Math.floor(r * xs.length)]\<close>: \<open>None\<close> is \<^verbatim>\<open>undefined\<close>, which for \<open>0 \<le> r < 1\<close>
  happens on the empty list only.
\<close>

definition pick :: "real \<Rightarrow> 'a list \<Rightarrow> 'a option" where
  "pick r xs =
     (let i = \<lfloor>r * real (length xs)\<rfloor>
      in if 0 \<le> i \<and> i < int (length xs) then Some (xs ! nat i) else None)"

text \<open>Lines 449 to 453: the squared distance the chase compares.\<close>

definition tileDist :: "Pacman \<Rightarrow> Ghost \<Rightarrow> dir \<Rightarrow> real" where
  "tileDist p g d =
     (let nx = \<lfloor>g_x g\<rfloor> + fst (dirVec d);
          ny = \<lfloor>g_y g\<rfloor> + snd (dirVec d)
      in (real_of_int nx - p_x p)\<^sup>2 + (real_of_int ny - p_y p)\<^sup>2)"

text \<open>The function handed to \<^verbatim>\<open>choices.reduce\<close>, started with \<^verbatim>\<open>null\<close>.\<close>

definition chaseStep :: "Pacman \<Rightarrow> Ghost \<Rightarrow> (dir \<times> real) option \<Rightarrow> dir \<Rightarrow> (dir \<times> real) option" where
  "chaseStep p g best d =
     (let dist = tileDist p g d
      in case best of
           None \<Rightarrow> Some (d, dist)
         | Some (bd, bdist) \<Rightarrow> if dist < bdist then Some (d, dist) else best)"

text \<open>
  Lines 427 to 458: the direction a ghost at a tile center takes. In the frightened
  branch \<^verbatim>\<open>choices\<close> is not empty, so with \<open>0 \<le> r < 1\<close> the pick is defined; the
  embedding keeps the old direction for an \<open>r\<close> outside that range.
\<close>

definition chooseDir :: "State \<Rightarrow> bool \<Rightarrow> real \<Rightarrow> Ghost \<Rightarrow> dir option" where
  "chooseDir st frightened r g = do {
     cs \<leftarrow> choices st g;
     (if cs = []
      then do {
        al \<leftarrow> allDirs st g;
        Some (case pick r al of Some d \<Rightarrow> d | None \<Rightarrow> g_dir g)
      }
      else if frightened
      then Some (case pick r cs of Some d \<Rightarrow> d | None \<Rightarrow> g_dir g)
      else Some (case foldl (chaseStep (pacman st) g) None cs of
                   Some (d, _) \<Rightarrow> d | None \<Rightarrow> g_dir g))
   }"

definition gNearCenter :: "Ghost \<Rightarrow> bool" where
  "gNearCenter g \<longleftrightarrow>
     \<bar>g_x g - (real_of_int \<lfloor>g_x g\<rfloor> + 0.5)\<bar> < 0.12 \<and>
     \<bar>g_y g - (real_of_int \<lfloor>g_y g\<rfloor> + 0.5)\<bar> < 0.12"

text \<open>Lines 420 to 461: the ghost \<open>g\<close> after its choice and its move.\<close>

definition moveGhost :: "Config \<Rightarrow> real \<Rightarrow> bool \<Rightarrow> real \<Rightarrow> State \<Rightarrow> Ghost \<Rightarrow> Ghost option" where
  "moveGhost cfg dt frightened r st g =
     (let gSpeed = (GHOST_SPEED cfg * (if frightened then 0.7 else 1.0)) * dt * 6
      in do {
        d \<leftarrow> (if gNearCenter g then chooseDir st frightened r g else Some (g_dir g));
        Some (g\<lparr>g_dir := d,
                g_x := wrap (g_x g + real_of_int (fst (dirVec d)) * gSpeed) (real_of_int (cols st)),
                g_y := wrap (g_y g + real_of_int (snd (dirVec d)) * gSpeed) (real_of_int (rows st))\<rparr>)
      })"

text \<open>\<^verbatim>\<open>Math.hypot(g.x - p.x, g.y - p.y) < 0.6\<close>.\<close>

definition hit :: "Ghost \<Rightarrow> Pacman \<Rightarrow> bool" where
  "hit g p \<longleftrightarrow> sqrt ((g_x g - p_x p)\<^sup>2 + (g_y g - p_y p)\<^sup>2) < 0.6"

text \<open>Line 475: every ghost goes to a place that depends on its index.\<close>

definition resetGhosts :: "Ghost list \<Rightarrow> Ghost list" where
  "resetGhosts gs =
     map (\<lambda>i. (gs ! i)\<lparr>g_x := 13 + real (i mod 2),
                        g_y := 14 + (if i > 1 then 1 else 0),
                        g_dir := Left\<rparr>) [0..<length gs]"

text \<open>Lines 464 to 477, for the ghost \<open>g\<close> of index \<open>idx\<close> that has just moved.\<close>

definition collide :: "bool \<Rightarrow> nat \<Rightarrow> Ghost \<Rightarrow> State \<Rightarrow> State \<times> event list" where
  "collide frightened idx g st =
     (let s1 = st\<lparr>ghosts := (ghosts st)[idx := g]\<rparr>
      in if hit g (pacman s1)
         then (if frightened
               then (s1\<lparr>ghosts := (ghosts s1)[idx := g\<lparr>g_x := 13, g_y := 14, g_dir := Left\<rparr>]\<rparr>,
                     [Score 200])
               else (s1\<lparr>pacman := (pacman s1)\<lparr>p_x := 14, p_y := 23, p_dir := Left, p_nx := Left\<rparr>,
                        ghosts := resetGhosts (ghosts s1)\<rparr>,
                     [LifeLost]))
         else (s1, []))"

text \<open>One turn of the callback of \<^verbatim>\<open>state.ghosts.forEach\<close>.\<close>

definition ghostStep :: "Config \<Rightarrow> real \<Rightarrow> bool \<Rightarrow> (nat \<Rightarrow> real) \<Rightarrow> nat \<Rightarrow> State \<Rightarrow> (State \<times> event list) option" where
  "ghostStep cfg dt frightened rnd idx st = do {
     g \<leftarrow> moveGhost cfg dt frightened (rnd idx) st (ghosts st ! idx);
     Some (collide frightened idx g st)
   }"

fun forEachGhost :: "(nat \<Rightarrow> State \<Rightarrow> (State \<times> event list) option) \<Rightarrow> nat list \<Rightarrow> State \<Rightarrow> (State \<times> event list) option" where
  "forEachGhost f [] st = Some (st, [])"
| "forEachGhost f (i # is) st = do {
     (s1, e1) \<leftarrow> f i st;
     (s2, e2) \<leftarrow> forEachGhost f is s1;
     Some (s2, e1 @ e2)
   }"

subsection \<open>\<^verbatim>\<open>update\<close>\<close>

text \<open>
  Player, consumption, then line 416 (the mode of this step, read before the decay),
  line 417 (the decay) and the ghosts in index order.
\<close>

definition update :: "Config \<Rightarrow> (maze_t \<Rightarrow> maze_t) \<Rightarrow> real \<Rightarrow> (nat \<Rightarrow> real) \<Rightarrow> State \<Rightarrow> (State \<times> event list) option" where
  "update cfg onClear dt rnd st = do {
     s1 \<leftarrow> movePacman dt st;
     (s2, e1) \<leftarrow> consume cfg onClear s1;
     let frightened = (powerTimer s2 > 0);
     let s3 = s2\<lparr>powerTimer := max 0 (powerTimer s2 - dt * 1000)\<rparr>;
     (s4, e2) \<leftarrow> forEachGhost (ghostStep cfg dt frightened rnd) [0..<length (ghosts s3)] s3;
     Some (s4, e1 @ e2)
   }"

text \<open>
  The same body cut in the turn of ghost \<open>idx\<close>, between its move (line 461) and the
  test of line 464: the state in which the ghost takes its turn, the ghost after its
  move, and the state once lines 464 to 477 have run for it. It is what \<open>update\<close>
  computes on its way, with the same mode flag of line 416.
\<close>

definition turnOf :: "Config \<Rightarrow> (maze_t \<Rightarrow> maze_t) \<Rightarrow> real \<Rightarrow> (nat \<Rightarrow> real) \<Rightarrow> State \<Rightarrow> nat
    \<Rightarrow> (State \<times> Ghost \<times> State) option" where
  "turnOf cfg onClear dt rnd st idx = do {
     s1 \<leftarrow> movePacman dt st;
     (s2, e1) \<leftarrow> consume cfg onClear s1;
     let frightened = (powerTimer s2 > 0);
     let s3 = s2\<lparr>powerTimer := max 0 (powerTimer s2 - dt * 1000)\<rparr>;
     (sa, ea) \<leftarrow> forEachGhost (ghostStep cfg dt frightened rnd) [0..<idx] s3;
     g \<leftarrow> moveGhost cfg dt frightened (rnd idx) sa (ghosts sa ! idx);
     Some (sa, g, fst (collide frightened idx g sa))
   }"

section \<open>Notions of the specification and sample worlds\<close>

text \<open>The place of a direction in the enumeration \<^verbatim>\<open>['left','right','up','down']\<close>.\<close>

definition dirIndex :: "dir \<Rightarrow> nat" where
  "dirIndex d = (case d of Left \<Rightarrow> 0 | Right \<Rightarrow> 1 | Up \<Rightarrow> 2 | Down \<Rightarrow> 3)"

text \<open>
  Following the words of the specification, not the source: the squared distance from
  the \<^emph>\<open>center\<close> of the tile a candidate direction leads to (the center of tile
  \<open>(c, r)\<close> is \<open>(c + 0.5, r + 0.5)\<close>) to the position of the player.
\<close>

definition centerDist :: "Pacman \<Rightarrow> Ghost \<Rightarrow> dir \<Rightarrow> real" where
  "centerDist p g d =
     (real_of_int (\<lfloor>g_x g\<rfloor> + fst (dirVec d)) + 0.5 - p_x p)\<^sup>2 +
     (real_of_int (\<lfloor>g_y g\<rfloor> + snd (dirVec d)) + 0.5 - p_y p)\<^sup>2"

text \<open>Every row as long as the first: what \<^verbatim>\<open>countPellets\<close> and \<^verbatim>\<open>cols\<close> take for granted.\<close>

definition rect :: "maze_t \<Rightarrow> bool" where
  "rect m \<longleftrightarrow> (\<forall>row\<in>set m. length row = length (m ! 0))"

text \<open>
  A run of the game loop: one \<open>update\<close> for each pair of a step time and a generator,
  stopping at the first exception.
\<close>

fun updates :: "Config \<Rightarrow> (maze_t \<Rightarrow> maze_t) \<Rightarrow> (real \<times> (nat \<Rightarrow> real)) list \<Rightarrow> State \<Rightarrow> State option" where
  "updates cfg oc [] st = Some st"
| "updates cfg oc ((dt, rnd) # rest) st = do {
     (s1, ev) \<leftarrow> update cfg oc dt rnd st;
     updates cfg oc rest s1
   }"

text \<open>
  The coordinate across the direction of travel is a whole number. Ghosts are created
  and reset on whole coordinates, and this is what keeps them away from tile centers.
\<close>

definition onAxis :: "Ghost \<Rightarrow> bool" where
  "onAxis g \<longleftrightarrow>
     (case g_dir g of
        Left \<Rightarrow> g_y g = real_of_int \<lfloor>g_y g\<rfloor>
      | Right \<Rightarrow> g_y g = real_of_int \<lfloor>g_y g\<rfloor>
      | Up \<Rightarrow> g_x g = real_of_int \<lfloor>g_x g\<rfloor>
      | Down \<Rightarrow> g_x g = real_of_int \<lfloor>g_x g\<rfloor>)"

text \<open>A generator that always draws 0.\<close>

definition rnd0 :: "nat \<Rightarrow> real" where
  "rnd0 idx = 0"

definition wallRow :: "nat list" where
  "wallRow = replicate 28 1"

definition pelletRow :: "nat list" where
  "pelletRow = (replicate 28 2)[0 := 1, 27 := 1]"

text \<open>
  A maze of 31 rows and 28 columns with a single pellet left, at column 13 of row 23,
  next to the start of the player; the start tile and the four ghost tiles are empty.
\<close>

definition maze1 :: maze_t where
  "maze1 = (replicate 31 wallRow)
     [14 := wallRow[12 := 0, 13 := 0, 14 := 0, 15 := 0],
      23 := wallRow[13 := 2, 14 := 0]]"

definition maze1_refilled :: maze_t where
  "maze1_refilled = (replicate 31 wallRow)
     [14 := wallRow[12 := 2, 13 := 2, 14 := 2, 15 := 2],
      23 := wallRow[13 := 2, 14 := 2]]"

definition world1 :: State where
  "world1 = \<lparr>cols = 28, rows = 31, maze = maze1, pellets = 1, powerTimer = 0,
     ghosts = [ghost ''blinky'' 13 14 Left 1.0 ''#ff0000'',
               ghost ''pinky'' 14 14 Right 0.95 ''#ffb8ff'',
               ghost ''inky'' 12 14 Up 0.95 ''#00ffff'',
               ghost ''clyde'' 15 14 Down 0.9 ''#ffb852''],
     pacman = \<lparr>p_x = 14, p_y = 23, p_dir = Left, p_nx = Left, p_speed = 1.1, p_alive = True\<rparr>\<rparr>"

definition world1a :: State where
  "world1a = \<lparr>cols = 28, rows = 31, maze = maze1_refilled, pellets = 0, powerTimer = 0,
     ghosts = [ghost ''blinky'' 12.91 14 Left 1.0 ''#ff0000'',
               ghost ''pinky'' 14.09 14 Right 0.95 ''#ffb8ff'',
               ghost ''inky'' 12 13.91 Up 0.95 ''#00ffff'',
               ghost ''clyde'' 15 14.09 Down 0.9 ''#ffb852''],
     pacman = \<lparr>p_x = 13.89, p_y = 23, p_dir = Left, p_nx = Left, p_speed = 1.1, p_alive = True\<rparr>\<rparr>"

definition world1b :: State where
  "world1b = \<lparr>cols = 28, rows = 31, maze = maze1_refilled, pellets = -1, powerTimer = 0,
     ghosts = [ghost ''blinky'' 12.82 14 Left 1.0 ''#ff0000'',
               ghost ''pinky'' 14.18 14 Right 0.95 ''#ffb8ff'',
               ghost ''inky'' 12 13.82 Up 0.95 ''#00ffff'',
               ghost ''clyde'' 15 14.18 Down 0.9 ''#ffb852''],
     pacman = \<lparr>p_x = 13.78, p_y = 23, p_dir = Left, p_nx = Left, p_speed = 1.1, p_alive = True\<rparr>\<rparr>"

text \<open>
  A walled maze full of pellets, with one more wall at column 12 of row 13, the tile
  above the start of the third ghost.
\<close>

definition maze2 :: maze_t where
  "maze2 = (replicate 31 pelletRow)[0 := wallRow, 30 := wallRow, 13 := pelletRow[12 := 1]]"

definition world2 :: State where
  "world2 = \<lparr>cols = 28, rows = 31, maze = maze2, pellets = 753, powerTimer = 0,
     ghosts = [ghost ''blinky'' 13 14 Left 1.0 ''#ff0000'',
               ghost ''pinky'' 14 14 Right 0.95 ''#ffb8ff'',
               ghost ''inky'' 12 14 Up 0.95 ''#00ffff'',
               ghost ''clyde'' 15 14 Down 0.9 ''#ffb852''],
     pacman = \<lparr>p_x = 14, p_y = 23, p_dir = Left, p_nx = Left, p_speed = 1.1, p_alive = True\<rparr>\<rparr>"

definition world2a :: State where
  "world2a = \<lparr>cols = 28, rows = 31, maze = maze_set maze2 23 13 0, pellets = 752,
     powerTimer = 0,
     ghosts = [ghost ''blinky'' 12.91 14 Left 1.0 ''#ff0000'',
               ghost ''pinky'' 14.09 14 Right 0.95 ''#ffb8ff'',
               ghost ''inky'' 12 13.91 Up 0.95 ''#00ffff'',
               ghost ''clyde'' 15 14.09 Down 0.9 ''#ffb852''],
     pacman = \<lparr>p_x = 13.89, p_y = 23, p_dir = Left, p_nx = Left, p_speed = 1.1, p_alive = True\<rparr>\<rparr>"

text \<open>A ghost at the center of tile \<open>(5, 5)\<close> heading up, the player four rows below.\<close>

definition ghost3 :: Ghost where
  "ghost3 = ghost ''blinky'' 5.5 5.5 Up 1.0 ''#ff0000''"

definition world3 :: State where
  "world3 = \<lparr>cols = 28, rows = 31, maze = maze2, pellets = 753, powerTimer = 0,
     ghosts = [ghost3],
     pacman = \<lparr>p_x = 5.3, p_y = 9.5, p_dir = Left, p_nx = Left, p_speed = 1.1, p_alive = True\<rparr>\<rparr>"

text \<open>
  The game loop of \<^verbatim>\<open>App\<close> (lines 161 to 175) calls \<^verbatim>\<open>update(step / 1000)\<close> with
  \<open>step = 1000 / 60\<close>: one step of a run is the pair of \<open>1/60\<close> and the generator.
\<close>

definition step60 :: "real \<times> (nat \<Rightarrow> real)" where
  "step60 = (1/60, rnd0)"

text \<open>The player as \<^verbatim>\<open>createWorld\<close> makes it, at a given place and heading.\<close>

definition pac :: "real \<Rightarrow> real \<Rightarrow> dir \<Rightarrow> dir \<Rightarrow> Pacman" where
  "pac px py d nx = \<lparr>p_x = px, p_y = py, p_dir = d, p_nx = nx, p_speed = 1.1, p_alive = True\<rparr>"

text \<open>
  The world of a 28 by 31 maze \<open>m\<close> in which each ghost has travelled the distance \<open>d\<close>
  from its start in its starting direction: \<open>cruise m n 0 (pac 14 23 Left Left) 0\<close> is
  what \<^verbatim>\<open>createWorld\<close> returns.
\<close>

definition cruise :: "maze_t \<Rightarrow> int \<Rightarrow> real \<Rightarrow> Pacman \<Rightarrow> real \<Rightarrow> State" where
  "cruise m n t p d = \<lparr>cols = 28, rows = 31, maze = m, pellets = n, powerTimer = t,
     ghosts = [ghost ''blinky'' (13 - d) 14 Left 1.0 ''#ff0000'',
               ghost ''pinky'' (14 + d) 14 Right 0.95 ''#ffb8ff'',
               ghost ''inky'' 12 (14 - d) Up 0.95 ''#00ffff'',
               ghost ''clyde'' 15 (14 + d) Down 0.9 ''#ffb852''],
     pacman = p\<rparr>"

text \<open>
  A walled maze full of pellets in which the player waits in a pocket of row 23 (a
  wall at column 12, columns 13 and 14 empty) until the fourth ghost, which travels
  down column 15, has come near, and then steps right into its way. In \<open>mazeS\<close> the
  tile \<open>(15, 23)\<close> holds a pellet, in \<open>mazeP\<close> a power pellet.
\<close>

definition mazeS :: maze_t where
  "mazeS = (replicate 31 pelletRow)[0 := wallRow, 30 := wallRow,
     23 := pelletRow[12 := 1, 13 := 0, 14 := 0]]"

definition mazeP :: maze_t where
  "mazeP = (replicate 31 pelletRow)[0 := wallRow, 30 := wallRow,
     23 := pelletRow[12 := 1, 13 := 0, 14 := 0, 15 := 3]]"

text \<open>
  Update 99 of the run on \<open>mazeS\<close>: the world when the fourth ghost takes its turn, and
  the world at the end of the update.
\<close>

definition worldS99t :: State where
  "worldS99t = \<lparr>cols = 28, rows = 31, maze = maze_set mazeS 23 15 0, pellets = 750,
     powerTimer = 0,
     ghosts = [ghost ''blinky'' 4.09 14 Left 1.0 ''#ff0000'',
               ghost ''pinky'' 22.91 14 Right 0.95 ''#ffb8ff'',
               ghost ''inky'' 12 5.09 Up 0.95 ''#00ffff'',
               ghost ''clyde'' 15 22.82 Down 0.9 ''#ffb852''],
     pacman = pac 15.04 23.5 Right Right\<rparr>"

definition worldS99 :: State where
  "worldS99 = \<lparr>cols = 28, rows = 31, maze = maze_set mazeS 23 15 0, pellets = 750,
     powerTimer = 0,
     ghosts = [ghost ''blinky'' 13 14 Left 1.0 ''#ff0000'',
               ghost ''pinky'' 14 14 Left 0.95 ''#ffb8ff'',
               ghost ''inky'' 13 15 Left 0.95 ''#00ffff'',
               ghost ''clyde'' 14 15 Left 0.9 ''#ffb852''],
     pacman = pac 14 23 Left Left\<rparr>"

text \<open>Update 100 of the run on \<open>mazeP\<close>, likewise.\<close>

definition worldP100t :: State where
  "worldP100t = \<lparr>cols = 28, rows = 31, maze = maze_set mazeP 23 15 0, pellets = 750,
     powerTimer = 17900/3,
     ghosts = [ghost ''blinky'' 4.054 14 Left 1.0 ''#ff0000'',
               ghost ''pinky'' 22.946 14 Right 0.95 ''#ffb8ff'',
               ghost ''inky'' 12 5.054 Up 0.95 ''#00ffff'',
               ghost ''clyde'' 15 22.883 Down 0.9 ''#ffb852''],
     pacman = pac 15.15 23.5 Right Right\<rparr>"

definition worldP100 :: State where
  "worldP100 = \<lparr>cols = 28, rows = 31, maze = maze_set mazeP 23 15 0, pellets = 750,
     powerTimer = 17900/3,
     ghosts = [ghost ''blinky'' 4.054 14 Left 1.0 ''#ff0000'',
               ghost ''pinky'' 22.946 14 Right 0.95 ''#ffb8ff'',
               ghost ''inky'' 12 5.054 Up 0.95 ''#00ffff'',
               ghost ''clyde'' 13 14 Left 0.9 ''#ffb852''],
     pacman = pac 15.15 23.5 Right Right\<rparr>"

text \<open>
  A power pellet at column 13 of row 23, and 2.5 seconds of an earlier one still on
  the timer.
\<close>

definition maze7 :: maze_t where
  "maze7 = (replicate 31 pelletRow)[0 := wallRow, 30 := wallRow, 23 := pelletRow[13 := 3]]"

definition world7 :: State where
  "world7 = \<lparr>cols = 28, rows = 31, maze = maze7, pellets = 753, powerTimer = 2500,
     ghosts = [ghost ''blinky'' 13 14 Left 1.0 ''#ff0000'',
               ghost ''pinky'' 14 14 Right 0.95 ''#ffb8ff'',
               ghost ''inky'' 12 14 Up 0.95 ''#00ffff'',
               ghost ''clyde'' 15 14 Down 0.9 ''#ffb852''],
     pacman = \<lparr>p_x = 14, p_y = 23, p_dir = Left, p_nx = Left, p_speed = 1.1, p_alive = True\<rparr>\<rparr>"

definition world7m :: State where
  "world7m = world7\<lparr>pacman := \<lparr>p_x = 13.89, p_y = 23, p_dir = Left, p_nx = Left,
                                  p_speed = 1.1, p_alive = True\<rparr>\<rparr>"

definition world7a :: State where
  "world7a = \<lparr>cols = 28, rows = 31, maze = maze_set maze7 23 13 0, pellets = 753,
     powerTimer = 17950 / 3,
     ghosts = [ghost ''blinky'' 12.937 14 Left 1.0 ''#ff0000'',
               ghost ''pinky'' 14.063 14 Right 0.95 ''#ffb8ff'',
               ghost ''inky'' 12 13.937 Up 0.95 ''#00ffff'',
               ghost ''clyde'' 15 14.063 Down 0.9 ''#ffb852''],
     pacman = \<lparr>p_x = 13.89, p_y = 23, p_dir = Left, p_nx = Left, p_speed = 1.1, p_alive = True\<rparr>\<rparr>"

text \<open>Ten milliseconds left on the timer.\<close>

definition world8 :: State where
  "world8 = \<lparr>cols = 28, rows = 31, maze = maze2, pellets = 753, powerTimer = 10,
     ghosts = [ghost ''blinky'' 13 14 Left 1.0 ''#ff0000'',
               ghost ''pinky'' 14 14 Right 0.95 ''#ffb8ff'',
               ghost ''inky'' 12 14 Up 0.95 ''#00ffff'',
               ghost ''clyde'' 15 14 Down 0.9 ''#ffb852''],
     pacman = \<lparr>p_x = 14, p_y = 23, p_dir = Left, p_nx = Left, p_speed = 1.1, p_alive = True\<rparr>\<rparr>"

definition world8a :: State where
  "world8a = \<lparr>cols = 28, rows = 31, maze = maze_set maze2 23 13 0, pellets = 752,
     powerTimer = 0,
     ghosts = [ghost ''blinky'' 12.937 14 Left 1.0 ''#ff0000'',
               ghost ''pinky'' 14.063 14 Right 0.95 ''#ffb8ff'',
               ghost ''inky'' 12 13.937 Up 0.95 ''#00ffff'',
               ghost ''clyde'' 15 14.063 Down 0.9 ''#ffb852''],
     pacman = \<lparr>p_x = 13.89, p_y = 23, p_dir = Left, p_nx = Left, p_speed = 1.1, p_alive = True\<rparr>\<rparr>"

text \<open>
  The tile \<open>(12, 14)\<close>, where the third ghost starts, walled in on all four sides.
\<close>

definition maze9 :: maze_t where
  "maze9 = (replicate 31 pelletRow)
     [0 := wallRow, 30 := wallRow,
      13 := pelletRow[12 := 1],
      14 := pelletRow[11 := 1, 13 := 1],
      15 := pelletRow[12 := 1]]"

definition world9 :: State where
  "world9 = \<lparr>cols = 28, rows = 31, maze = maze9, pellets = 750, powerTimer = 0,
     ghosts = [ghost ''blinky'' 13 14 Left 1.0 ''#ff0000'',
               ghost ''pinky'' 14 14 Right 0.95 ''#ffb8ff'',
               ghost ''inky'' 12 14 Up 0.95 ''#00ffff'',
               ghost ''clyde'' 15 14 Down 0.9 ''#ffb852''],
     pacman = \<lparr>p_x = 14, p_y = 23, p_dir = Left, p_nx = Left, p_speed = 1.1, p_alive = True\<rparr>\<rparr>"

definition world9a :: State where
  "world9a = \<lparr>cols = 28, rows = 31, maze = maze_set maze9 23 13 0, pellets = 749,
     powerTimer = 0,
     ghosts = [ghost ''blinky'' 12.91 14 Left 1.0 ''#ff0000'',
               ghost ''pinky'' 14.09 14 Right 0.95 ''#ffb8ff'',
               ghost ''inky'' 12 13.91 Up 0.95 ''#00ffff'',
               ghost ''clyde'' 15 14.09 Down 0.9 ''#ffb852''],
     pacman = \<lparr>p_x = 13.89, p_y = 23, p_dir = Left, p_nx = Left, p_speed = 1.1, p_alive = True\<rparr>\<rparr>"

text \<open>The same ghost put on the center of its tile.\<close>

definition ghost9 :: Ghost where
  "ghost9 = ghost ''inky'' 12.5 14.5 Up 0.95 ''#00ffff''"

section \<open>Torus wrap\<close>




section \<open>What an update leaves alone\<close>

lemma hit_iff [code]: "hit g p \<longleftrightarrow> (g_x g - p_x p)\<^sup>2 + (g_y g - p_y p)\<^sup>2 < 0.36"
proof -
  have "sqrt (0.36::real) = 0.6"
    by (rule real_sqrt_unique) (simp_all add: power2_eq_square)
  then have "(0.6::real) = sqrt 0.36" by simp
  then show ?thesis unfolding hit_def by (simp only: real_sqrt_less_iff)
qed

lemma movePacman_frame:
  assumes "movePacman dt st = Some s1"
  shows "maze s1 = maze st" "pellets s1 = pellets st" "powerTimer s1 = powerTimer st"
    "ghosts s1 = ghosts st" "cols s1 = cols st" "rows s1 = rows st"
  using assms by (auto simp: movePacman_def Let_def bind_eq_Some_conv)

lemma collide_frame:
  assumes "collide fr idx g st = (s1, ev)"
  shows "maze s1 = maze st" "pellets s1 = pellets st" "powerTimer s1 = powerTimer st"
    "cols s1 = cols st" "rows s1 = rows st" "length (ghosts s1) = length (ghosts st)"
  using assms by (auto simp: collide_def Let_def resetGhosts_def split: if_splits)

lemma ghostStep_frame:
  assumes "ghostStep cfg dt fr rnd idx st = Some (s1, ev)"
  shows "maze s1 = maze st" "pellets s1 = pellets st" "powerTimer s1 = powerTimer st"
    "cols s1 = cols st" "rows s1 = rows st" "length (ghosts s1) = length (ghosts st)"
  using assms collide_frame by (auto simp: ghostStep_def bind_eq_Some_conv)

lemma forEachGhost_frame:
  assumes "forEachGhost (ghostStep cfg dt fr rnd) is st = Some (s1, ev)"
  shows "maze s1 = maze st \<and> pellets s1 = pellets st \<and> powerTimer s1 = powerTimer st \<and>
    cols s1 = cols st \<and> rows s1 = rows st \<and> length (ghosts s1) = length (ghosts st)"
  using assms
proof (induction "is" arbitrary: st s1 ev)
  case Nil
  then show ?case by simp
next
  case (Cons i "is")
  from Cons.prems obtain sa ea sb eb where
    a: "ghostStep cfg dt fr rnd i st = Some (sa, ea)" and
    b: "forEachGhost (ghostStep cfg dt fr rnd) is sa = Some (sb, eb)" and
    c: "s1 = sb"
    by (auto simp: bind_eq_Some_conv)
  from Cons.IH[OF b] ghostStep_frame[OF a] c show ?case by simp
qed

text \<open>In one update the ghosts emit capture scores only, or lost lives only.\<close>

lemma forEachGhost_events:
  assumes "forEachGhost (ghostStep cfg dt fr rnd) is st = Some (s1, ev)"
  shows "set ev \<subseteq> (if fr then {Score 200} else {LifeLost})"
  using assms
proof (induction "is" arbitrary: st s1 ev)
  case Nil
  then show ?case by simp
next
  case (Cons i "is")
  from Cons.prems obtain sa ea sb eb where
    a: "ghostStep cfg dt fr rnd i st = Some (sa, ea)" and
    b: "forEachGhost (ghostStep cfg dt fr rnd) is sa = Some (sb, eb)" and
    c: "ev = ea @ eb"
    by (auto simp: bind_eq_Some_conv)
  from a have "set ea \<subseteq> (if fr then {Score 200} else {LifeLost})"
    by (auto simp: ghostStep_def bind_eq_Some_conv collide_def Let_def split: if_splits)
  with Cons.IH[OF b] c show ?case by (auto split: if_splits)
qed

lemma update_phases:
  assumes "update cfg oc dt rnd st = Some (st', ev)"
  obtains s1 s2 e1 e2 where
    "movePacman dt st = Some s1"
    "consume cfg oc s1 = Some (s2, e1)"
    "forEachGhost (ghostStep cfg dt (powerTimer s2 > 0) rnd) [0..<length (ghosts s2)]
       (s2\<lparr>powerTimer := max 0 (powerTimer s2 - dt * 1000)\<rparr>) = Some (st', e2)"
    "ev = e1 @ e2"
  using assms by (auto simp: update_def Let_def bind_eq_Some_conv)

lemma consume_cases:
  assumes "consume cfg oc s1 = Some (s2, e1)"
  shows "(e1 = [Score 50] \<and> powerTimer s2 = POWER_DURATION_MS cfg) \<or>
         (Score 50 \<notin> set e1 \<and> powerTimer s2 = powerTimer s1)"
  using assms by (auto simp: consume_def Let_def bind_eq_Some_conv split: if_splits)

lemma maze_at_maze_set:
  assumes "maze_at m cy cx = Some (Some v)"
  shows "maze_at (maze_set m cy cx w) r c =
           (if r = cy \<and> c = cx then Some (Some w) else maze_at m r c)"
proof -
  from assms have cy: "0 \<le> cy" "cy < int (length m)"
    and cx: "0 \<le> cx" "cx < int (length (m ! nat cy))"
    by (auto simp: maze_at_def Let_def split: if_splits)
  show ?thesis
  proof (cases "r = cy")
    case True
    with cy cx show ?thesis
      by (auto simp: maze_at_def maze_set_def Let_def nth_list_update nat_eq_iff)
  next
    case False
    with cy show ?thesis
      by (auto simp: maze_at_def maze_set_def Let_def nth_list_update nat_eq_iff)
  qed
qed

section \<open>Evaluating the sample worlds\<close>

lemmas engine_defs = update_def movePacman_def passable_def cellAt_def wrap_def
  consume_def ghostStep_def moveGhost_def gNearCenter_def collide_def hit_iff
  ghost_def App_config_def resetGhosts_def centerCoord_def rnd0_def Let_def power2_eq_square

lemma upt4: "[0..<4] = [0, 1, 2, 3]"
  by (simp add: upt_rec)

lemma countPellets_maze1: "countPellets maze1 = 1"
  by code_simp

lemma countPellets_maze1_refilled: "countPellets maze1_refilled = 6"
  by code_simp

lemma createWorld_maze1: "createWorld App_config maze1 = Some world1"
  unfolding createWorld_def countPellets_maze1
  by (simp add: maze1_def world1_def App_config_def wallRow_def)

lemma maze1_cells:
  "maze_at maze1 23 13 = Some (Some 2)"
  "maze_at maze1 23 14 = Some (Some 0)"
  "maze_at maze1 14 12 = Some (Some 0)"
  by (simp_all add: maze_at_def maze1_def wallRow_def)

lemma maze1_refilled_cells:
  "maze_at maze1_refilled 23 13 = Some (Some 2)"
  "maze_at maze1_refilled 23 14 = Some (Some 2)"
  "maze_at maze1_refilled 14 12 = Some (Some 2)"
  by (simp_all add: maze_at_def maze1_refilled_def wallRow_def)

lemma refill_maze1:
  "onClear_mount (maze_set maze1 23 13 0) = maze1_refilled"
  "onClear_mount (maze_set maze1_refilled 23 13 0) = maze1_refilled"
  by code_simp+

lemma update_world1:
  "update App_config onClear_mount (1/60) rnd0 world1 = Some (world1a, [Score 10, Clear])"
  by (simp add: engine_defs world1_def world1a_def maze1_cells refill_maze1 upt4)

lemma update_world1a:
  "update App_config onClear_mount (1/60) rnd0 world1a = Some (world1b, [Score 10, Clear])"
  by (simp add: engine_defs world1a_def world1b_def maze1_refilled_cells refill_maze1 upt4)

lemma countPellets_maze2: "countPellets maze2 = 753"
  by code_simp

lemma createWorld_maze2: "createWorld App_config maze2 = Some world2"
  unfolding createWorld_def countPellets_maze2
  by (simp add: maze2_def world2_def App_config_def wallRow_def pelletRow_def)

lemma maze2_cells:
  "maze_at maze2 23 13 = Some (Some 2)"
  "maze_at maze2 14 12 = Some (Some 2)"
  "maze_at maze2 13 12 = Some (Some 1)"
  "maze_at maze2 5 4 = Some (Some 2)"
  "maze_at maze2 5 6 = Some (Some 2)"
  "maze_at maze2 4 5 = Some (Some 2)"
  "maze_at maze2 6 5 = Some (Some 2)"
  by (simp_all add: maze_at_def maze2_def wallRow_def pelletRow_def)

lemma update_world2:
  "update App_config onClear_mount (1/60) rnd0 world2 = Some (world2a, [Score 10])"
  by (simp add: engine_defs world2_def world2a_def maze2_cells upt4)

lemma maze7_cells:
  "maze_at maze7 23 13 = Some (Some 3)"
  by (simp_all add: maze_at_def maze7_def wallRow_def pelletRow_def)

lemma movePacman_world7: "movePacman (1/60) world7 = Some world7m"
  by (simp add: engine_defs world7_def world7m_def maze7_cells)

lemma update_world7:
  "update App_config onClear_mount (1/60) rnd0 world7 = Some (world7a, [Score 50])"
  by (simp add: engine_defs world7_def world7a_def maze7_cells upt4)

lemma update_world8:
  "update App_config onClear_mount (1/60) rnd0 world8 = Some (world8a, [Score 10])"
  by (simp add: engine_defs world8_def world8a_def maze2_cells upt4)

lemma countPellets_maze9: "countPellets maze9 = 750"
  by code_simp

lemma createWorld_maze9: "createWorld App_config maze9 = Some world9"
  unfolding createWorld_def countPellets_maze9
  by (simp add: maze9_def world9_def App_config_def wallRow_def pelletRow_def)

lemma maze9_cells:
  "maze_at maze9 23 13 = Some (Some 2)"
  "maze_at maze9 14 11 = Some (Some 1)"
  "maze_at maze9 14 13 = Some (Some 1)"
  "maze_at maze9 13 12 = Some (Some 1)"
  "maze_at maze9 15 12 = Some (Some 1)"
  by (simp_all add: maze_at_def maze9_def wallRow_def pelletRow_def)

lemma update_world9:
  "update App_config onClear_mount (1/60) rnd0 world9 = Some (world9a, [Score 10])"
  by (simp add: engine_defs world9_def world9a_def maze9_cells upt4)

section \<open>The power timer\<close>

text \<open>
  C8: an update that returns leaves the power timer at \<open>max 0 (t - dt * 1000)\<close>, where
  \<open>t\<close> is the timer the step started with (or the configured duration when the step
  consumed a power pellet, which is the step that emits \<open>Score 50\<close>). So the timer is
  never negative after an update, and a step longer than what remained leaves exactly 0.
\<close>

theorem power_timer_decay:
  assumes "update cfg oc dt rnd st = Some (st', ev)"
  shows "0 \<le> powerTimer st' \<and>
    (Score 50 \<notin> set ev \<longrightarrow> powerTimer st' = max 0 (powerTimer st - dt * 1000)) \<and>
    (Score 50 \<notin> set ev \<and> powerTimer st \<le> dt * 1000 \<longrightarrow> powerTimer st' = 0) \<and>
    (Score 50 \<in> set ev \<longrightarrow> powerTimer st' = max 0 (POWER_DURATION_MS cfg - dt * 1000))"
proof -
  from assms obtain s1 s2 e1 e2 where
    mv: "movePacman dt st = Some s1" and
    co: "consume cfg oc s1 = Some (s2, e1)" and
    gh: "forEachGhost (ghostStep cfg dt (powerTimer s2 > 0) rnd) [0..<length (ghosts s2)]
       (s2\<lparr>powerTimer := max 0 (powerTimer s2 - dt * 1000)\<rparr>) = Some (st', e2)" and
    ev: "ev = e1 @ e2"
    by (rule update_phases)
  from forEachGhost_frame[OF gh]
  have t: "powerTimer st' = max 0 (powerTimer s2 - dt * 1000)" by simp
  from forEachGhost_events[OF gh] have e2: "Score 50 \<notin> set e2" by (auto split: if_splits)
  from consume_cases[OF co] movePacman_frame(3)[OF mv] t e2 ev
  show ?thesis by auto
qed

text \<open>
  The theorem at two steps of 1/60 s: with 10 ms left and no power pellet the timer
  ends at 0; with a power pellet consumed it ends at \<open>6000 - 1000/60\<close>.
\<close>

theorem power_timer_decay_witness:
  "update App_config onClear_mount (1/60) rnd0 world8 = Some (world8a, [Score 10]) \<and>
   Score 50 \<notin> set [Score 10] \<and> powerTimer world8 \<le> (1/60) * 1000 \<and>
   powerTimer world8a = 0 \<and>
   update App_config onClear_mount (1/60) rnd0 world7 = Some (world7a, [Score 50]) \<and>
   Score 50 \<in> set [Score 50] \<and>
   0 \<le> powerTimer world7a \<and> powerTimer world7a = max 0 (POWER_DURATION_MS App_config - (1/60) * 1000)"
proof -
  have h8: "powerTimer world8 \<le> (1/60) * 1000" by (simp add: world8_def)
  from power_timer_decay[OF update_world8] h8 have a: "powerTimer world8a = 0" by simp
  from power_timer_decay[OF update_world7]
  have b: "0 \<le> powerTimer world7a \<and>
     powerTimer world7a = max 0 (POWER_DURATION_MS App_config - (1/60) * 1000)" by simp
  from a b h8 update_world8 update_world7 show ?thesis by simp
qed

text \<open>
  C7: when the player, after its move, stands on a power pellet, the consumption sets
  the timer to \<open>POWER_DURATION_MS\<close> whatever it was (an assignment, not an addition),
  empties the cell and emits \<open>Score 50\<close>; the decay of the same update then takes the
  step time off, so the update ends with \<open>max 0 (POWER_DURATION_MS - dt * 1000)\<close>,
  again whatever the timer was before.
\<close>

theorem power_pellet_sets_timer:
  assumes "movePacman dt st = Some s1"
    and "maze_at (maze s1) \<lfloor>p_y (pacman s1)\<rfloor> \<lfloor>p_x (pacman s1)\<rfloor> = Some (Some 3)"
    and "update cfg oc dt rnd st = Some (st', ev)"
  shows "consume cfg oc s1 =
           Some (s1\<lparr>maze := maze_set (maze s1) \<lfloor>p_y (pacman s1)\<rfloor> \<lfloor>p_x (pacman s1)\<rfloor> 0,
                    powerTimer := POWER_DURATION_MS cfg\<rparr>, [Score 50]) \<and>
         powerTimer st' = max 0 (POWER_DURATION_MS cfg - dt * 1000)"
proof -
  have co: "consume cfg oc s1 =
           Some (s1\<lparr>maze := maze_set (maze s1) \<lfloor>p_y (pacman s1)\<rfloor> \<lfloor>p_x (pacman s1)\<rfloor> 0,
                    powerTimer := POWER_DURATION_MS cfg\<rparr>, [Score 50])"
    using assms(2) by (simp add: consume_def Let_def)
  from assms(3) obtain s1' s2 e1 e2 where
    mv: "movePacman dt st = Some s1'" and
    co': "consume cfg oc s1' = Some (s2, e1)" and
    gh: "forEachGhost (ghostStep cfg dt (powerTimer s2 > 0) rnd) [0..<length (ghosts s2)]
       (s2\<lparr>powerTimer := max 0 (powerTimer s2 - dt * 1000)\<rparr>) = Some (st', e2)"
    by (rule update_phases)
  from mv assms(1) have "s1' = s1" by simp
  with co co' have "powerTimer s2 = POWER_DURATION_MS cfg" by auto
  with forEachGhost_frame[OF gh] co show ?thesis by simp
qed

text \<open>The theorem on a world whose timer still holds 2500 ms.\<close>

theorem power_pellet_sets_timer_witness:
  "powerTimer world7 = 2500 \<and>
   movePacman (1/60) world7 = Some world7m \<and>
   maze_at (maze world7m) \<lfloor>p_y (pacman world7m)\<rfloor> \<lfloor>p_x (pacman world7m)\<rfloor> = Some (Some 3) \<and>
   update App_config onClear_mount (1/60) rnd0 world7 = Some (world7a, [Score 50]) \<and>
   powerTimer (fst (the (consume App_config onClear_mount world7m))) = 6000 \<and>
   powerTimer world7a = 6000 - 1000 / 60"
proof -
  have h2: "maze_at (maze world7m) \<lfloor>p_y (pacman world7m)\<rfloor> \<lfloor>p_x (pacman world7m)\<rfloor>
              = Some (Some 3)"
    by (simp add: world7m_def world7_def maze7_cells)
  from power_pellet_sets_timer[OF movePacman_world7 h2 update_world7]
  have "powerTimer (fst (the (consume App_config onClear_mount world7m))) = 6000 \<and>
        powerTimer world7a = 6000 - 1000 / 60"
    by (simp add: App_config_def)
  with h2 movePacman_world7 update_world7 show ?thesis by (simp add: world7_def)
qed

section \<open>The maze and the pellet counter\<close>

text \<open>
  C10 (as found): the update that eats the last pellet of \<open>world1\<close> runs \<^verbatim>\<open>onClear\<close> of
  the mounted world inside the call, which turns the empty cells at \<open>(14, 23)\<close> and
  \<open>(12, 14)\<close> into pellets: two empty cells, neither under the player, have changed.
\<close>

theorem refill_changes_cells_counterexample:
  "update App_config onClear_mount (1/60) rnd0 world1 = Some (world1a, [Score 10, Clear]) \<and>
   \<lfloor>p_x (pacman world1a)\<rfloor> = 13 \<and> \<lfloor>p_y (pacman world1a)\<rfloor> = 23 \<and>
   maze_at (maze world1) 23 14 = Some (Some 0) \<and>
   maze_at (maze world1a) 23 14 = Some (Some 2) \<and>
   maze_at (maze world1) 14 12 = Some (Some 0) \<and>
   maze_at (maze world1a) 14 12 = Some (Some 2)"
  by (simp add: update_world1)
     (simp add: world1_def world1a_def maze1_cells maze1_refilled_cells)

text \<open>
  C10 (amended): an update that returns writes to one cell at most, the cell under the
  truncated position of the player after its move, and only when that cell is a pellet
  or a power pellet, which becomes empty; every other cell reads as before. The one
  other change is the callback: when the cell was a pellet and the counter was at most
  1, \<open>Clear\<close> is emitted and \<^verbatim>\<open>onClear\<close> is applied to the maze within the same call.
\<close>

theorem update_maze_effect:
  assumes "update cfg oc dt rnd st = Some (st', ev)"
  shows "\<exists>s1. movePacman dt st = Some s1 \<and>
     (let cy = \<lfloor>p_y (pacman s1)\<rfloor>; cx = \<lfloor>p_x (pacman s1)\<rfloor>;
          old = maze_at (maze st) cy cx;
          m1 = maze_set (maze st) cy cx 0
      in if old = Some (Some 2) \<or> old = Some (Some 3)
         then (\<forall>r c. maze_at m1 r c =
                       (if r = cy \<and> c = cx then Some (Some 0) else maze_at (maze st) r c)) \<and>
              (if old = Some (Some 2) \<and> pellets st \<le> 1
               then Clear \<in> set ev \<and> maze st' = oc m1
               else Clear \<notin> set ev \<and> maze st' = m1)
         else Clear \<notin> set ev \<and> maze st' = maze st)"
proof -
  from assms obtain s1 s2 e1 e2 where
    mv: "movePacman dt st = Some s1" and
    co: "consume cfg oc s1 = Some (s2, e1)" and
    gh: "forEachGhost (ghostStep cfg dt (powerTimer s2 > 0) rnd) [0..<length (ghosts s2)]
       (s2\<lparr>powerTimer := max 0 (powerTimer s2 - dt * 1000)\<rparr>) = Some (st', e2)" and
    ev: "ev = e1 @ e2"
    by (rule update_phases)
  note fr = movePacman_frame[OF mv]
  from forEachGhost_frame[OF gh] have mz: "maze st' = maze s2" by simp
  from forEachGhost_events[OF gh] have e2: "Clear \<notin> set e2" by (auto split: if_splits)
  define cy where "cy = \<lfloor>p_y (pacman s1)\<rfloor>"
  define cx where "cx = \<lfloor>p_x (pacman s1)\<rfloor>"
  from co obtain cell where old: "maze_at (maze st) cy cx = Some cell"
    by (auto simp: consume_def Let_def bind_eq_Some_conv fr cy_def cx_def)
  have A: "\<forall>r c. maze_at (maze_set (maze st) cy cx 0) r c =
            (if r = cy \<and> c = cx then Some (Some 0) else maze_at (maze st) r c)"
    if "cell = Some 2 \<or> cell = Some 3"
    using that old maze_at_maze_set[of "maze st" cy cx _ 0] by auto
  have B: "if cell = Some 2 \<or> cell = Some 3
           then (if cell = Some 2 \<and> pellets st \<le> 1
                 then Clear \<in> set ev \<and> maze st' = oc (maze_set (maze st) cy cx 0)
                 else Clear \<notin> set ev \<and> maze st' = maze_set (maze st) cy cx 0)
           else Clear \<notin> set ev \<and> maze st' = maze st"
    using co old e2 ev mz fr(1,2)
    by (auto simp: consume_def Let_def cy_def cx_def split: if_splits)
  from mv A B old show ?thesis
    unfolding cy_def cx_def by (auto simp: Let_def)
qed

text \<open>
  The theorem on three updates: one that eats a pellet among many, one that eats the
  last pellet, one that eats a power pellet.
\<close>

theorem update_maze_effect_witness:
  "update App_config onClear_mount (1/60) rnd0 world2 = Some (world2a, [Score 10]) \<and>
   maze world2a = maze_set (maze world2) 23 13 0 \<and>
   maze_at (maze world2a) 23 13 = Some (Some 0) \<and>
   maze_at (maze world2a) 14 12 = maze_at (maze world2) 14 12 \<and>
   update App_config onClear_mount (1/60) rnd0 world1 = Some (world1a, [Score 10, Clear]) \<and>
   maze world1a = onClear_mount (maze_set (maze world1) 23 13 0) \<and>
   update App_config onClear_mount (1/60) rnd0 world7 = Some (world7a, [Score 50]) \<and>
   maze world7a = maze_set (maze world7) 23 13 0"
proof -
  have mv2: "movePacman (1/60) world2 = Some (world2\<lparr>pacman := pacman world2a\<rparr>)"
    by (simp add: engine_defs world2_def world2a_def maze2_cells)
  have mv1: "movePacman (1/60) world1 = Some (world1\<lparr>pacman := pacman world1a\<rparr>)"
    by (simp add: engine_defs world1_def world1a_def maze1_cells)
  have p2: "\<lfloor>p_y (pacman world2a)\<rfloor> = 23" "\<lfloor>p_x (pacman world2a)\<rfloor> = 13"
    by (simp_all add: world2a_def)
  have p1: "\<lfloor>p_y (pacman world1a)\<rfloor> = 23" "\<lfloor>p_x (pacman world1a)\<rfloor> = 13"
    by (simp_all add: world1a_def)
  have p7: "\<lfloor>p_y (pacman world7m)\<rfloor> = 23" "\<lfloor>p_x (pacman world7m)\<rfloor> = 13"
    by (simp_all add: world7m_def)
  have c2: "maze_at (maze world2) 23 13 = Some (Some 2)" "pellets world2 = 753"
    by (simp_all add: world2_def maze2_cells)
  have c1: "maze_at (maze world1) 23 13 = Some (Some 2)" "pellets world1 = 1"
    by (simp_all add: world1_def maze1_cells)
  have c7: "maze_at (maze world7) 23 13 = Some (Some 3)"
    by (simp_all add: world7_def maze7_cells)
  from update_maze_effect[OF update_world2] mv2 p2 c2
  have a: "maze world2a = maze_set (maze world2) 23 13 0 \<and>
     maze_at (maze world2a) 23 13 = Some (Some 0) \<and>
     maze_at (maze world2a) 14 12 = maze_at (maze world2) 14 12"
    by (simp add: Let_def)
  from update_maze_effect[OF update_world1] mv1 p1 c1
  have b: "maze world1a = onClear_mount (maze_set (maze world1) 23 13 0)"
    by (simp add: Let_def)
  from update_maze_effect[OF update_world7] movePacman_world7 p7 c7
  have c: "maze world7a = maze_set (maze world7) 23 13 0"
    by (simp add: Let_def)
  from a b c update_world2 update_world1 update_world7 show ?thesis by blast
qed

text \<open>
  Where the claim about the counter holds: on a rectangular maze an update keeps the
  counter equal to \<open>countPellets\<close> as long as it does not emit \<open>Clear\<close>, and always in
  the world built by \<^verbatim>\<open>restart\<close>, whose \<^verbatim>\<open>onClear\<close> leaves the maze alone.
\<close>

lemma count_row_eat:
  "j < length xs \<Longrightarrow> xs ! j = 2 \<Longrightarrow>
   Suc (length (filter (\<lambda>v. v = 2) (xs[j := 0]))) = length (filter (\<lambda>v. v = (2::nat)) xs)"
proof (induction xs arbitrary: j)
  case Nil
  then show ?case by simp
next
  case (Cons a xs)
  then show ?case by (cases j) auto
qed

lemma count_row_power:
  "j < length xs \<Longrightarrow> xs ! j = 3 \<Longrightarrow>
   length (filter (\<lambda>v. v = 2) (xs[j := 0])) = length (filter (\<lambda>v. v = (2::nat)) xs)"
proof (induction xs arbitrary: j)
  case Nil
  then show ?case by simp
next
  case (Cons a xs)
  then show ?case by (cases j) auto
qed

lemma sum_list_map_update:
  fixes f :: "'a \<Rightarrow> nat"
  assumes "i < length m"
  shows "sum_list (map f (m[i := r])) + f (m ! i) = sum_list (map f m) + f r"
  using assms
proof (induction m arbitrary: i)
  case Nil
  then show ?case by simp
next
  case (Cons a m)
  then show ?case by (cases i) (auto simp: add.assoc)
qed

lemma rect_maze_set:
  assumes "rect m"
  shows "rect (maze_set m cy cx v)" and "length (maze_set m cy cx v ! 0) = length (m ! 0)"
proof -
  show l0: "length (maze_set m cy cx v ! 0) = length (m ! 0)"
    by (cases "nat cy < length m"; cases "nat cy") (simp_all add: maze_set_def nth_list_update)
  show "rect (maze_set m cy cx v)"
  proof (cases "nat cy < length m")
    case True
    then have "length (m ! nat cy) = length (m ! 0)"
      using assms by (simp add: rect_def)
    then have "\<forall>row\<in>insert ((m ! nat cy)[nat cx := v]) (set m). length row = length (m ! 0)"
      using assms by (simp add: rect_def)
    then show ?thesis
      unfolding rect_def l0 unfolding maze_set_def
      using set_update_subset_insert[of m "nat cy" "(m ! nat cy)[nat cx := v]"] by blast
  next
    case False
    then have "m[nat cy := (m ! nat cy)[nat cx := v]] = m"
      by (intro list_update_beyond) simp
    then show ?thesis using assms by (simp add: maze_set_def)
  qed
qed

lemma countPellets_eat:
  assumes "rect m" and "maze_at m cy cx = Some (Some 2)"
  shows "countPellets (maze_set m cy cx 0) + 1 = countPellets m"
proof -
  from assms(2) have cy: "0 \<le> cy" "nat cy < length m"
    and cx: "nat cx < length (m ! nat cy)" and v: "m ! nat cy ! nat cx = 2"
    by (auto simp: maze_at_def Let_def split: if_splits)
  let ?n = "length (m ! 0)"
  let ?f = "\<lambda>row. length (filter (\<lambda>v. v = (2::nat)) (take ?n row))"
  from assms(1) cy have len: "length (m ! nat cy) = ?n" by (simp add: rect_def)
  have "countPellets (maze_set m cy cx 0) = sum_list (map ?f (m[nat cy := (m ! nat cy)[nat cx := 0]]))"
    using rect_maze_set(2)[OF assms(1), of cy cx 0]
    by (simp add: countPellets_def) (simp add: maze_set_def)
  moreover have "sum_list (map ?f (m[nat cy := (m ! nat cy)[nat cx := 0]])) + ?f (m ! nat cy)
        = sum_list (map ?f m) + ?f ((m ! nat cy)[nat cx := 0])"
    using cy(2) by (rule sum_list_map_update[of "nat cy" m ?f "(m ! nat cy)[nat cx := 0]"])
  moreover have "Suc (?f ((m ! nat cy)[nat cx := 0])) = ?f (m ! nat cy)"
    using count_row_eat[OF cx v] len by simp
  ultimately show ?thesis by (simp add: countPellets_def)
qed

lemma countPellets_power:
  assumes "rect m" and "maze_at m cy cx = Some (Some 3)"
  shows "countPellets (maze_set m cy cx 0) = countPellets m"
proof -
  from assms(2) have cy: "0 \<le> cy" "nat cy < length m"
    and cx: "nat cx < length (m ! nat cy)" and v: "m ! nat cy ! nat cx = 3"
    by (auto simp: maze_at_def Let_def split: if_splits)
  let ?n = "length (m ! 0)"
  let ?f = "\<lambda>row. length (filter (\<lambda>v. v = (2::nat)) (take ?n row))"
  from assms(1) cy have len: "length (m ! nat cy) = ?n" by (simp add: rect_def)
  have "countPellets (maze_set m cy cx 0) = sum_list (map ?f (m[nat cy := (m ! nat cy)[nat cx := 0]]))"
    using rect_maze_set(2)[OF assms(1), of cy cx 0]
    by (simp add: countPellets_def) (simp add: maze_set_def)
  moreover have "sum_list (map ?f (m[nat cy := (m ! nat cy)[nat cx := 0]])) + ?f (m ! nat cy)
        = sum_list (map ?f m) + ?f ((m ! nat cy)[nat cx := 0])"
    using cy(2) by (rule sum_list_map_update[of "nat cy" m ?f "(m ! nat cy)[nat cx := 0]"])
  moreover have "?f ((m ! nat cy)[nat cx := 0]) = ?f (m ! nat cy)"
    using count_row_power[OF cx v] len by simp
  ultimately show ?thesis by (simp add: countPellets_def)
qed

lemma consume_keeps_count:
  assumes "rect (maze st)" and "pellets st = int (countPellets (maze st))"
    and "consume cfg oc st = Some (s2, ev)" and "Clear \<notin> set ev \<or> oc = onClear_restart"
  shows "rect (maze s2) \<and> pellets s2 = int (countPellets (maze s2))"
proof -
  define cy where "cy = \<lfloor>p_y (pacman st)\<rfloor>"
  define cx where "cx = \<lfloor>p_x (pacman st)\<rfloor>"
  from assms(3) obtain cell where old: "maze_at (maze st) cy cx = Some cell"
    by (auto simp: consume_def Let_def bind_eq_Some_conv cy_def cx_def)
  consider (pellet) "cell = Some 2" | (power) "cell = Some 3" | (other) "cell \<noteq> Some 2" "cell \<noteq> Some 3"
    by blast
  then show ?thesis
  proof cases
    case pellet
    with old countPellets_eat[OF assms(1), of cy cx]
    have "int (countPellets (maze_set (maze st) cy cx 0)) = pellets st - 1"
      using assms(2) by simp
    with pellet old assms(3,4) rect_maze_set(1)[OF assms(1), of cy cx 0] show ?thesis
      by (auto simp: consume_def Let_def cy_def cx_def onClear_restart_def split: if_splits)
  next
    case power
    with old countPellets_power[OF assms(1), of cy cx]
    have "int (countPellets (maze_set (maze st) cy cx 0)) = pellets st"
      using assms(2) by simp
    with power old assms(3) rect_maze_set(1)[OF assms(1), of cy cx 0] show ?thesis
      by (auto simp: consume_def Let_def cy_def cx_def split: if_splits)
  next
    case other
    with old assms show ?thesis
      by (auto simp: consume_def Let_def cy_def cx_def split: if_splits)
  qed
qed

lemma update_keeps_count:
  assumes "rect (maze st)" and "pellets st = int (countPellets (maze st))"
    and "update cfg oc dt rnd st = Some (st', ev)" and "Clear \<notin> set ev \<or> oc = onClear_restart"
  shows "rect (maze st') \<and> pellets st' = int (countPellets (maze st'))"
proof -
  from assms(3) obtain s1 s2 e1 e2 where
    mv: "movePacman dt st = Some s1" and
    co: "consume cfg oc s1 = Some (s2, e1)" and
    gh: "forEachGhost (ghostStep cfg dt (powerTimer s2 > 0) rnd) [0..<length (ghosts s2)]
       (s2\<lparr>powerTimer := max 0 (powerTimer s2 - dt * 1000)\<rparr>) = Some (st', e2)" and
    ev: "ev = e1 @ e2"
    by (rule update_phases)
  from movePacman_frame[OF mv] assms(1,2)
  have i1: "rect (maze s1)" "pellets s1 = int (countPellets (maze s1))" by simp_all
  from assms(4) ev have "Clear \<notin> set e1 \<or> oc = onClear_restart" by auto
  from consume_keeps_count[OF i1 co this] forEachGhost_frame[OF gh] show ?thesis by simp
qed

lemma restart_world_counter:
  assumes "rect m" and "createWorld cfg m = Some st0"
    and "updates cfg onClear_restart ins st0 = Some st"
  shows "pellets st = int (countPellets (maze st))"
proof -
  have "rect (maze s) \<Longrightarrow> pellets s = int (countPellets (maze s)) \<Longrightarrow>
        updates cfg onClear_restart ins s = Some st \<Longrightarrow>
        pellets st = int (countPellets (maze st))" for s
  proof (induction ins arbitrary: s)
    case Nil
    then show ?case by simp
  next
    case (Cons a ins)
    obtain dt rnd where a: "a = (dt, rnd)" by (cases a)
    from Cons.prems(3) obtain s1 ev where
      u: "update cfg onClear_restart dt rnd s = Some (s1, ev)" and
      r: "updates cfg onClear_restart ins s1 = Some st"
      by (auto simp: a bind_eq_Some_conv)
    from update_keeps_count[OF Cons.prems(1,2) u] have
      "rect (maze s1)" "pellets s1 = int (countPellets (maze s1))" by simp_all
    from Cons.IH[OF this r] show ?case .
  qed
  moreover from assms(1,2) have "rect (maze st0)" "pellets st0 = int (countPellets (maze st0))"
    by (auto simp: createWorld_def split: if_splits)
  ultimately show ?thesis using assms(3) by blast
qed

text \<open>
  Where it fails, in general: in the mounted world every update that emits \<open>Clear\<close>
  ends with a counter of at most 0 and at least one pellet in the maze, and from a
  counter of at most 1 every pellet eaten emits \<open>Clear\<close>.
\<close>

lemma countPellets_pos:
  assumes "rect m" and "maze_at m cy cx = Some (Some 2)"
  shows "0 < countPellets m"
proof -
  from assms(2) have cy: "nat cy < length m"
    and cx: "nat cx < length (m ! nat cy)" and v: "m ! nat cy ! nat cx = 2"
    by (auto simp: maze_at_def Let_def split: if_splits)
  let ?f = "\<lambda>row. length (filter (\<lambda>v. v = (2::nat)) (take (length (m ! 0)) row))"
  from assms(1) cy have len: "length (m ! nat cy) = length (m ! 0)" by (simp add: rect_def)
  from cx v have "2 \<in> set (m ! nat cy)" by (metis nth_mem)
  then have "filter (\<lambda>v. v = (2::nat)) (m ! nat cy) \<noteq> []"
    by (simp add: filter_empty_conv)
  then have a: "0 < ?f (m ! nat cy)" using len by simp
  from cy have "?f (m ! nat cy) \<in> set (map ?f m)" by simp
  then have b: "?f (m ! nat cy) \<le> sum_list (map ?f m)" by (rule member_le_sum_list) simp
  from a b show ?thesis unfolding countPellets_def by (rule less_le_trans)
qed

lemma onClear_mount_rect:
  assumes "rect m"
  shows "onClear_mount m = map (map (\<lambda>v. if v = 0 then 2 else v)) m"
  using assms by (auto simp: onClear_mount_def rect_def)

lemma refill_cell:
  assumes "rect m" and "maze_at m cy cx = Some (Some 0)"
  shows "rect (onClear_mount m)" and "maze_at (onClear_mount m) cy cx = Some (Some 2)"
proof -
  show "rect (onClear_mount m)"
    using assms(1) unfolding onClear_mount_rect[OF assms(1)]
    by (cases m) (auto simp: rect_def)
  show "maze_at (onClear_mount m) cy cx = Some (Some 2)"
    using assms(2) unfolding onClear_mount_rect[OF assms(1)]
    by (auto simp: maze_at_def Let_def split: if_splits)
qed

lemma clear_leaves_counter_stale:
  assumes "rect (maze st)"
    and "update cfg onClear_mount dt rnd st = Some (st', ev)" and "Clear \<in> set ev"
  shows "pellets st' \<le> 0 \<and> 0 < countPellets (maze st')"
proof -
  from assms(2) obtain s1 s2 e1 e2 where
    mv: "movePacman dt st = Some s1" and
    co: "consume cfg onClear_mount s1 = Some (s2, e1)" and
    gh: "forEachGhost (ghostStep cfg dt (powerTimer s2 > 0) rnd) [0..<length (ghosts s2)]
       (s2\<lparr>powerTimer := max 0 (powerTimer s2 - dt * 1000)\<rparr>) = Some (st', e2)" and
    ev: "ev = e1 @ e2"
    by (rule update_phases)
  from forEachGhost_events[OF gh] have "Clear \<notin> set e2" by (auto split: if_splits)
  with assms(3) ev have c1: "Clear \<in> set e1" by simp
  define cy where "cy = \<lfloor>p_y (pacman s1)\<rfloor>"
  define cx where "cx = \<lfloor>p_x (pacman s1)\<rfloor>"
  from co c1 have old: "maze_at (maze s1) cy cx = Some (Some 2)"
    and p: "pellets s2 \<le> 0"
    and m: "maze s2 = onClear_mount (maze_set (maze s1) cy cx 0)"
    by (auto simp: consume_def Let_def bind_eq_Some_conv cy_def cx_def split: if_splits)
  from assms(1) movePacman_frame(1)[OF mv] have r1: "rect (maze s1)" by simp
  have r2: "rect (maze_set (maze s1) cy cx 0)" using r1 by (rule rect_maze_set(1))
  have "maze_at (maze_set (maze s1) cy cx 0) cy cx = Some (Some 0)"
    using maze_at_maze_set[OF old, of 0 cy cx] by simp
  from refill_cell[OF r2 this] have "0 < countPellets (maze s2)"
    unfolding m by (rule countPellets_pos)
  with p forEachGhost_frame[OF gh] show ?thesis by simp
qed


lemma stale_counter_clears_again:
  assumes "pellets st \<le> 1"
    and "update cfg oc dt rnd st = Some (st', ev)" and "Score 10 \<in> set ev"
  shows "Clear \<in> set ev \<and> pellets st' = pellets st - 1"
proof -
  from assms(2) obtain s1 s2 e1 e2 where
    mv: "movePacman dt st = Some s1" and
    co: "consume cfg oc s1 = Some (s2, e1)" and
    gh: "forEachGhost (ghostStep cfg dt (powerTimer s2 > 0) rnd) [0..<length (ghosts s2)]
       (s2\<lparr>powerTimer := max 0 (powerTimer s2 - dt * 1000)\<rparr>) = Some (st', e2)" and
    ev: "ev = e1 @ e2"
    by (rule update_phases)
  from forEachGhost_events[OF gh] have "Score 10 \<notin> set e2" by (auto split: if_splits)
  with assms(3) ev have "Score 10 \<in> set e1" by simp
  with co assms(1) movePacman_frame(2)[OF mv]
  have "Clear \<in> set e1 \<and> pellets s2 = pellets st - 1"
    by (auto simp: consume_def Let_def bind_eq_Some_conv split: if_splits)
  with ev forEachGhost_frame[OF gh] show ?thesis by simp
qed

text \<open>
  C1 (the code breaks it): \<open>world1\<close> is the world \<^verbatim>\<open>createWorld\<close> builds on \<open>maze1\<close>, driven
  with the \<^verbatim>\<open>onClear\<close> of the mounted \<^verbatim>\<open>App\<close>. Its first update eats the last pellet;
  the callback refills the maze and nothing recounts, so the update ends with the
  counter at 0 and six pellet cells in the maze.
\<close>

theorem pellet_counter_stale_after_refill:
  "createWorld App_config maze1 = Some world1 \<and>
   pellets world1 = int (countPellets (maze world1)) \<and>
   update App_config onClear_mount (1/60) rnd0 world1 = Some (world1a, [Score 10, Clear]) \<and>
   pellets world1a = 0 \<and>
   countPellets (maze world1a) = 6"
  by (simp add: createWorld_maze1 update_world1)
     (simp add: world1_def world1a_def countPellets_maze1 countPellets_maze1_refilled)

text \<open>
  C6 (the code breaks it): in the same world the update after the one that emptied
  the last pellet eats a refilled pellet; the counter goes from 0 to -1, the test
  \<^verbatim>\<open>state.pellets <= 0\<close> holds again and \<open>Clear\<close> is emitted a second time.
\<close>

theorem level_clear_fires_again:
  "createWorld App_config maze1 = Some world1 \<and>
   update App_config onClear_mount (1/60) rnd0 world1 = Some (world1a, [Score 10, Clear]) \<and>
   update App_config onClear_mount (1/60) rnd0 world1a = Some (world1b, [Score 10, Clear]) \<and>
   pellets world1a = 0 \<and> pellets world1b = -1"
  by (simp add: createWorld_maze1 update_world1 update_world1a)
     (simp add: world1a_def world1b_def)

section \<open>The chase\<close>

text \<open>
  The choice of a direction, lines 443 to 457, as a function of the state and the
  ghost. It runs only for a ghost near the center of its tile, and in a world made by
  \<^verbatim>\<open>createWorld\<close> no ghost is ever there (\<open>ghosts_never_decide\<close>, in the section on ghosts
  and walls): the facts of this section describe the function, not a run of the game,
  and decide nothing about C3.
\<close>

lemma filterM_Some:
  "filterM f xs = Some ys \<Longrightarrow> ys = filter (\<lambda>x. f x = Some True) xs"
  by (induction xs arbitrary: ys) (auto simp: bind_eq_Some_conv)

lemma choices_filter:
  assumes "choices st g = Some cs"
  shows "cs = filter (\<lambda>d. \<not> opposite d (g_dir g) \<and>
            passable st (real_of_int (\<lfloor>g_x g\<rfloor> + fst (dirVec d)))
                        (real_of_int (\<lfloor>g_y g\<rfloor> + snd (dirVec d))) = Some True)
          [Left, Right, Up, Down]"
proof -
  from assms have "cs = filter (\<lambda>d. (if opposite d (g_dir g) then Some False
                  else passable st (real_of_int (\<lfloor>g_x g\<rfloor> + fst (dirVec d)))
                                   (real_of_int (\<lfloor>g_y g\<rfloor> + snd (dirVec d)))) = Some True)
       [Left, Right, Up, Down]"
    unfolding choices_def by (rule filterM_Some)
  also have "\<dots> = filter (\<lambda>d. \<not> opposite d (g_dir g) \<and>
            passable st (real_of_int (\<lfloor>g_x g\<rfloor> + fst (dirVec d)))
                        (real_of_int (\<lfloor>g_y g\<rfloor> + snd (dirVec d))) = Some True)
          [Left, Right, Up, Down]"
    by (rule filter_cong) auto
  finally show ?thesis .
qed

lemma choices_sorted:
  assumes "choices st g = Some cs"
  shows "sorted_wrt (\<lambda>a b. dirIndex a < dirIndex b) cs"
proof -
  have "sorted_wrt (\<lambda>a b. dirIndex a < dirIndex b) [Left, Right, Up, Down]"
    by (simp add: dirIndex_def)
  then show ?thesis
    unfolding choices_filter[OF assms] by (rule sorted_wrt_filter)
qed

text \<open>The reduce keeps the first candidate of least distance.\<close>

lemma chase_foldl_Some:
  "\<exists>pre d post. b # xs = pre @ d # post \<and>
     foldl (chaseStep p g) (Some (b, tileDist p g b)) xs = Some (d, tileDist p g d) \<and>
     (\<forall>x\<in>set pre. tileDist p g d < tileDist p g x) \<and>
     (\<forall>x\<in>set post. tileDist p g d \<le> tileDist p g x)"
proof (induction xs rule: rev_induct)
  case Nil
  show ?case by (rule exI[of _ "[]"], rule exI[of _ b], rule exI[of _ "[]"]) simp
next
  case (snoc x xs)
  then obtain pre d post where
    dec: "b # xs = pre @ d # post" and
    res: "foldl (chaseStep p g) (Some (b, tileDist p g b)) xs = Some (d, tileDist p g d)" and
    lt: "\<forall>x\<in>set pre. tileDist p g d < tileDist p g x" and
    le: "\<forall>x\<in>set post. tileDist p g d \<le> tileDist p g x"
    by blast
  show ?case
  proof (cases "tileDist p g x < tileDist p g d")
    case True
    have "b # xs @ [x] = (b # xs) @ x # []" by simp
    moreover have "foldl (chaseStep p g) (Some (b, tileDist p g b)) (xs @ [x])
                     = Some (x, tileDist p g x)"
      using res True by (simp add: chaseStep_def)
    moreover have "\<forall>y\<in>set (b # xs). tileDist p g x < tileDist p g y"
      using True lt le unfolding dec by fastforce
    ultimately show ?thesis by (metis empty_iff list.set(1))
  next
    case False
    have "b # xs @ [x] = pre @ d # (post @ [x])" using dec by simp
    moreover have "foldl (chaseStep p g) (Some (b, tileDist p g b)) (xs @ [x])
                     = Some (d, tileDist p g d)"
      using res False by (simp add: chaseStep_def)
    moreover have "\<forall>y\<in>set (post @ [x]). tileDist p g d \<le> tileDist p g y"
      using False le by auto
    ultimately show ?thesis using lt by blast
  qed
qed

lemma chase_foldl:
  assumes "cs \<noteq> []"
  shows "\<exists>pre d post. cs = pre @ d # post \<and>
     foldl (chaseStep p g) None cs = Some (d, tileDist p g d) \<and>
     (\<forall>x\<in>set pre. tileDist p g d < tileDist p g x) \<and>
     (\<forall>x\<in>set post. tileDist p g d \<le> tileDist p g x)"
proof -
  from assms obtain b xs where cs: "cs = b # xs" by (cases cs) auto
  have "foldl (chaseStep p g) None cs = foldl (chaseStep p g) (Some (b, tileDist p g b)) xs"
    by (simp add: cs chaseStep_def)
  with chase_foldl_Some[of b xs p g] show ?thesis unfolding cs by simp
qed

lemma choices_world3: "choices world3 ghost3 = Some [Left, Right, Up]"
  by (simp add: choices_def opposite_def passable_def cellAt_def wrap_def world3_def
      ghost3_def ghost_def maze2_cells)

lemma gNearCenter_ghost3: "gNearCenter ghost3"
  by (simp add: gNearCenter_def ghost3_def ghost_def)

lemma chooseDir_world3: "chooseDir world3 False 0 ghost3 = Some Right"
  unfolding chooseDir_def choices_world3
  by (simp add: chaseStep_def tileDist_def world3_def ghost3_def ghost_def power2_eq_square)

lemma moveGhost_world3:
  "moveGhost App_config (1/60) False 0 world3 ghost3
     = Some (ghost ''blinky'' 5.59 5.5 Right 1.0 ''#ff0000'')"
  by (simp add: moveGhost_def gNearCenter_ghost3 chooseDir_world3 Let_def)
     (simp add: world3_def ghost3_def ghost_def App_config_def wrap_def)

text \<open>
  The ghost of \<open>world3\<close>, a state put together by hand, is near the center of its tile
  in Normal mode with the candidates Left, Right and Up. The tile to the left has the
  nearer center (16.64 against 17.44), yet the function answers Right: it measures
  from the integer coordinates of the tile, not from its center.
\<close>

lemma chooseDir_world3_not_center:
  "gNearCenter ghost3 \<and> powerTimer world3 = 0 \<and>
   choices world3 ghost3 = Some [Left, Right, Up] \<and>
   moveGhost App_config (1/60) False 0 world3 ghost3
     = Some (ghost ''blinky'' 5.59 5.5 Right 1.0 ''#ff0000'') \<and>
   centerDist (pacman world3) ghost3 Left < centerDist (pacman world3) ghost3 Right"
  by (simp add: gNearCenter_ghost3 choices_world3 moveGhost_world3)
     (simp add: centerDist_def world3_def ghost3_def ghost_def power2_eq_square)

text \<open>
  Given a ghost near the center of its tile in Normal mode and at least one candidate
  that neither reverses nor hits a wall, \<open>moveGhost\<close> takes the candidate that
  minimises \<open>tileDist\<close>, the squared distance from the integer coordinates
  \<open>(gx + dx, gy + dy)\<close> of the tile it leads to (the corner of the tile, not its
  center) to the position of the player; among candidates of equal distance it is the
  first of Left, Right, Up, Down.
\<close>

lemma chooseDir_first_nearest_tile:
  assumes "gNearCenter g" and "choices st g = Some cs" and "cs \<noteq> []"
  shows "\<exists>g'. moveGhost cfg dt False r st g = Some g' \<and> g_dir g' \<in> set cs \<and>
     (\<forall>d\<in>set cs. tileDist (pacman st) g (g_dir g') \<le> tileDist (pacman st) g d) \<and>
     (\<forall>d\<in>set cs. tileDist (pacman st) g d = tileDist (pacman st) g (g_dir g')
                   \<longrightarrow> dirIndex (g_dir g') \<le> dirIndex d)"
proof -
  from chase_foldl[OF assms(3), of "pacman st" g] obtain pre d post where
    dec: "cs = pre @ d # post" and
    res: "foldl (chaseStep (pacman st) g) None cs = Some (d, tileDist (pacman st) g d)" and
    lt: "\<forall>x\<in>set pre. tileDist (pacman st) g d < tileDist (pacman st) g x" and
    le: "\<forall>x\<in>set post. tileDist (pacman st) g d \<le> tileDist (pacman st) g x"
    by blast
  have ch: "chooseDir st False r g = Some d"
    using assms(2,3) res by (simp add: chooseDir_def)
  define g' where "g' = g\<lparr>g_dir := d,
       g_x := wrap (g_x g + real_of_int (fst (dirVec d)) * (GHOST_SPEED cfg * 1.0 * dt * 6))
                (real_of_int (cols st)),
       g_y := wrap (g_y g + real_of_int (snd (dirVec d)) * (GHOST_SPEED cfg * 1.0 * dt * 6))
                (real_of_int (rows st))\<rparr>"
  have mv: "moveGhost cfg dt False r st g = Some g'"
    using assms(1) ch by (simp add: moveGhost_def g'_def Let_def)
  have dir: "g_dir g' = d" by (simp add: g'_def)
  have mem: "d \<in> set cs" using dec by simp
  have min: "\<forall>x\<in>set cs. tileDist (pacman st) g d \<le> tileDist (pacman st) g x"
    using lt le unfolding dec by fastforce
  from choices_sorted[OF assms(2)] have
    "\<forall>x\<in>set post. dirIndex d < dirIndex x"
    unfolding dec by (simp add: sorted_wrt_append)
  then have tie: "\<forall>x\<in>set cs. tileDist (pacman st) g x = tileDist (pacman st) g d
                   \<longrightarrow> dirIndex d \<le> dirIndex x"
    using lt unfolding dec by fastforce
  from mv dir mem min tie show ?thesis by simp
qed

text \<open>On the ghost of \<open>world3\<close>, which goes Right.\<close>

lemma chooseDir_first_nearest_tile_world3:
  "gNearCenter ghost3 \<and> choices world3 ghost3 = Some [Left, Right, Up] \<and>
   [Left, Right, Up] \<noteq> [] \<and>
   tileDist (pacman world3) ghost3 Right \<le> tileDist (pacman world3) ghost3 Left \<and>
   tileDist (pacman world3) ghost3 Right \<le> tileDist (pacman world3) ghost3 Up"
proof -
  have h3: "[Left, Right, Up] \<noteq> []" by simp
  from chooseDir_first_nearest_tile[OF gNearCenter_ghost3 choices_world3 h3,
      of App_config "1/60" 0]
  have "tileDist (pacman world3) ghost3 Right \<le> tileDist (pacman world3) ghost3 Left \<and>
        tileDist (pacman world3) ghost3 Right \<le> tileDist (pacman world3) ghost3 Up"
    by (simp add: moveGhost_world3 ghost_def)
  with gNearCenter_ghost3 choices_world3 show ?thesis by simp
qed

section \<open>The reset of the ghosts\<close>

lemma resetGhosts_nth:
  assumes "j < length gs"
  shows "resetGhosts gs ! j = (gs ! j)\<lparr>g_x := 13 + real (j mod 2),
           g_y := 14 + (if j > 1 then 1 else 0), g_dir := Left\<rparr>"
  using assms by (simp add: resetGhosts_def)

section \<open>Ghosts and walls\<close>

text \<open>
  The player does what the motion contract says: when the tile it would enter is a
  wall, it stays in its tile, exactly on the center.
\<close>

lemma centerCoord_center: "centerCoord (real_of_int n + 0.5) = real_of_int n + 0.5"
proof -
  have "(real_of_int n + 0.5) * 100 = real_of_int (100 * n + 50)" by simp
  then have "round ((real_of_int n + 0.5) * 100) = 100 * n + 50"
    by (simp only: round_of_int)
  then show ?thesis by (simp add: centerCoord_def)
qed

lemma player_snaps_to_center:
  assumes "movePacman dt st = Some s1"
  shows "\<exists>ok. passable st
            (real_of_int \<lfloor>p_x (pacman st) + real_of_int (fst (dirVec (p_dir (pacman s1))))
                            * (p_speed (pacman st) * dt * 6)\<rfloor>)
            (real_of_int \<lfloor>p_y (pacman st) + real_of_int (snd (dirVec (p_dir (pacman s1))))
                            * (p_speed (pacman st) * dt * 6)\<rfloor>) = Some ok \<and>
          (\<not> ok \<longrightarrow> p_x (pacman s1) = real_of_int \<lfloor>p_x (pacman st)\<rfloor> + 0.5 \<and>
                   p_y (pacman s1) = real_of_int \<lfloor>p_y (pacman st)\<rfloor> + 0.5)"
  using assms centerCoord_center[of "\<lfloor>p_x (pacman st)\<rfloor>"] centerCoord_center[of "\<lfloor>p_y (pacman st)\<rfloor>"]
  by (auto simp: movePacman_def Let_def bind_eq_Some_conv split: if_splits)

text \<open>
  The ghost path has no test of the tile a ghost enters; it relies on the choice made
  at tile centers. But a ghost of a world built by \<^verbatim>\<open>createWorld\<close> never is at a tile
  center, whatever the maze, the callback, the step times and the random draws: it
  starts on whole coordinates, every reset puts it on whole coordinates, and a move
  changes the coordinate along its direction only. So it keeps its direction and is
  advanced by its speed in every update, walls or not.
\<close>

lemma onAxis_not_near: "onAxis g \<Longrightarrow> \<not> gNearCenter g"
  by (auto simp: onAxis_def gNearCenter_def split: dir.splits)

lemma wrap_integral:
  assumes "v = real_of_int \<lfloor>v\<rfloor>"
  shows "wrap v (real_of_int n) = real_of_int \<lfloor>wrap v (real_of_int n)\<rfloor>"
proof -
  from assms obtain k where v: "v = real_of_int k" by blast
  show ?thesis unfolding v wrap_def
    by (simp del: of_int_add of_int_diff add: of_int_add[symmetric] of_int_diff[symmetric])
qed

lemma moveGhost_onAxis:
  assumes "onAxis g"
  shows "moveGhost cfg dt fr r st g =
     Some (g\<lparr>g_dir := g_dir g,
             g_x := wrap (g_x g + real_of_int (fst (dirVec (g_dir g)))
                            * ((GHOST_SPEED cfg * (if fr then 0.7 else 1.0)) * dt * 6))
                      (real_of_int (cols st)),
             g_y := wrap (g_y g + real_of_int (snd (dirVec (g_dir g)))
                            * ((GHOST_SPEED cfg * (if fr then 0.7 else 1.0)) * dt * 6))
                      (real_of_int (rows st))\<rparr>)"
  using onAxis_not_near[OF assms] by (simp add: moveGhost_def Let_def)

lemma moveGhost_keeps_onAxis:
  assumes "onAxis g" and "moveGhost cfg dt fr r st g = Some g'"
  shows "onAxis g'"
proof -
  from assms(2) have g': "g' = g\<lparr>g_dir := g_dir g,
             g_x := wrap (g_x g + real_of_int (fst (dirVec (g_dir g)))
                            * ((GHOST_SPEED cfg * (if fr then 0.7 else 1.0)) * dt * 6))
                      (real_of_int (cols st)),
             g_y := wrap (g_y g + real_of_int (snd (dirVec (g_dir g)))
                            * ((GHOST_SPEED cfg * (if fr then 0.7 else 1.0)) * dt * 6))
                      (real_of_int (rows st))\<rparr>"
    unfolding moveGhost_onAxis[OF assms(1)] by simp
  show ?thesis
    using assms(1) wrap_integral[of "g_x g" "cols st"] wrap_integral[of "g_y g" "rows st"]
    unfolding g' by (cases "g_dir g") (simp_all add: onAxis_def)
qed

lemma resetGhosts_onAxis: "\<forall>g\<in>set (resetGhosts gs). onAxis g"
  by (auto simp: resetGhosts_def onAxis_def)

lemma collide_keeps_onAxis:
  assumes "\<forall>h\<in>set (ghosts st). onAxis h" and "onAxis g"
    and "collide fr idx g st = (s1, ev)"
  shows "\<forall>h\<in>set (ghosts s1). onAxis h"
proof -
  have a: "\<forall>h\<in>set ((ghosts st)[idx := g]). onAxis h"
    using assms(1,2) set_update_subset_insert[of "ghosts st" idx g] by blast
  have b: "\<forall>h\<in>set ((ghosts st)[idx := g\<lparr>g_x := 13, g_y := 14, g_dir := Left\<rparr>]). onAxis h"
    using assms(1) set_update_subset_insert[of "ghosts st" idx "g\<lparr>g_x := 13, g_y := 14, g_dir := Left\<rparr>"]
    by (auto simp: onAxis_def)
  from assms(3) a b resetGhosts_onAxis show ?thesis
    by (auto simp: collide_def Let_def split: if_splits)
qed

lemma ghostStep_keeps_onAxis:
  assumes "\<forall>h\<in>set (ghosts st). onAxis h" and "idx < length (ghosts st)"
    and "ghostStep cfg dt fr rnd idx st = Some (s1, ev)"
  shows "\<forall>h\<in>set (ghosts s1). onAxis h"
proof -
  from assms(3) obtain g where
    mv: "moveGhost cfg dt fr (rnd idx) st (ghosts st ! idx) = Some g" and
    co: "collide fr idx g st = (s1, ev)"
    by (auto simp: ghostStep_def bind_eq_Some_conv)
  from assms(1,2) have "onAxis (ghosts st ! idx)" by simp
  from moveGhost_keeps_onAxis[OF this mv] have "onAxis g" .
  from collide_keeps_onAxis[OF assms(1) this co] show ?thesis .
qed

lemma forEachGhost_keeps_onAxis:
  assumes "\<forall>h\<in>set (ghosts st). onAxis h" and "\<forall>i\<in>set is. i < length (ghosts st)"
    and "forEachGhost (ghostStep cfg dt fr rnd) is st = Some (s1, ev)"
  shows "\<forall>h\<in>set (ghosts s1). onAxis h"
  using assms
proof (induction "is" arbitrary: st s1 ev)
  case Nil
  then show ?case by simp
next
  case (Cons i "is")
  from Cons.prems(3) obtain sa ea sb eb where
    a: "ghostStep cfg dt fr rnd i st = Some (sa, ea)" and
    b: "forEachGhost (ghostStep cfg dt fr rnd) is sa = Some (sb, eb)" and
    c: "s1 = sb"
    by (auto simp: bind_eq_Some_conv)
  from Cons.prems(2) have i: "i < length (ghosts st)" by simp
  from ghostStep_keeps_onAxis[OF Cons.prems(1) i a] have 1: "\<forall>h\<in>set (ghosts sa). onAxis h" .
  from ghostStep_frame(6)[OF a] Cons.prems(2) have 2: "\<forall>i\<in>set is. i < length (ghosts sa)" by simp
  from Cons.IH[OF 1 2 b] c show ?case by simp
qed

lemma consume_ghosts:
  assumes "consume cfg oc s1 = Some (s2, e1)"
  shows "ghosts s2 = ghosts s1"
  using assms by (auto simp: consume_def Let_def bind_eq_Some_conv split: if_splits)

lemma update_keeps_onAxis:
  assumes "\<forall>h\<in>set (ghosts st). onAxis h"
    and "update cfg oc dt rnd st = Some (st', ev)"
  shows "\<forall>h\<in>set (ghosts st'). onAxis h"
proof -
  from assms(2) obtain s1 s2 e1 e2 where
    mv: "movePacman dt st = Some s1" and
    co: "consume cfg oc s1 = Some (s2, e1)" and
    gh: "forEachGhost (ghostStep cfg dt (powerTimer s2 > 0) rnd) [0..<length (ghosts s2)]
       (s2\<lparr>powerTimer := max 0 (powerTimer s2 - dt * 1000)\<rparr>) = Some (st', e2)"
    by (rule update_phases)
  from assms(1) movePacman_frame(4)[OF mv] consume_ghosts[OF co]
  have 1: "\<forall>h\<in>set (ghosts (s2\<lparr>powerTimer := max 0 (powerTimer s2 - dt * 1000)\<rparr>)). onAxis h"
    by simp
  have 2: "\<forall>i\<in>set [0..<length (ghosts s2)].
             i < length (ghosts (s2\<lparr>powerTimer := max 0 (powerTimer s2 - dt * 1000)\<rparr>))"
    by simp
  from forEachGhost_keeps_onAxis[OF 1 2 gh] show ?thesis .
qed

lemma ghosts_never_decide:
  assumes "createWorld cfg m = Some st0" and "updates cfg oc ins st0 = Some st"
  shows "\<forall>g\<in>set (ghosts st). \<not> gNearCenter g"
proof -
  have "\<forall>h\<in>set (ghosts s). onAxis h \<Longrightarrow> updates cfg oc ins s = Some st \<Longrightarrow>
        \<forall>h\<in>set (ghosts st). onAxis h" for s
  proof (induction ins arbitrary: s)
    case Nil
    then show ?case by simp
  next
    case (Cons a ins)
    obtain dt rnd where a: "a = (dt, rnd)" by (cases a)
    from Cons.prems(2) obtain s1 ev where
      u: "update cfg oc dt rnd s = Some (s1, ev)" and
      r: "updates cfg oc ins s1 = Some st"
      by (auto simp: a bind_eq_Some_conv)
    from Cons.IH[OF update_keeps_onAxis[OF Cons.prems(1) u] r] show ?case .
  qed
  moreover from assms(1) have "\<forall>h\<in>set (ghosts st0). onAxis h"
    by (auto simp: createWorld_def onAxis_def ghost_def split: if_splits)
  ultimately show ?thesis using assms(2) onAxis_not_near by blast
qed


text \<open>
  C2 (the code breaks it): \<open>world2\<close> is the world \<^verbatim>\<open>createWorld\<close> builds on \<open>maze2\<close>. The
  third ghost starts at \<open>(12, 14)\<close> heading up; the tile above it is a wall. Its first
  update moves it to \<open>(12, 13.91)\<close>, inside the wall tile: the move is neither
  cancelled nor is the ghost put on the center \<open>(12.5, 14.5)\<close> of its tile, as the player
  would be. The ghost path has no test of the destination tile at all.
\<close>

theorem ghost_enters_wall:
  "createWorld App_config maze2 = Some world2 \<and>
   update App_config onClear_mount (1/60) rnd0 world2 = Some (world2a, [Score 10]) \<and>
   ghosts world2 ! 2 = ghost ''inky'' 12 14 Up 0.95 ''#00ffff'' \<and>
   passable world2 12 13.91 = Some False \<and>
   ghosts world2a ! 2 = ghost ''inky'' 12 13.91 Up 0.95 ''#00ffff''"
  by (simp add: createWorld_maze2 update_world2)
     (simp add: world2_def world2a_def passable_def cellAt_def wrap_def maze2_cells)

text \<open>
  In general: a ghost with no passable tile around it keeps its direction and is
  advanced all the same (a ghost away from a tile center is advanced without any
  look at the maze, by the definition of \<open>moveGhost\<close>).
\<close>

lemma filterM_Nil:
  "filterM f xs = Some [] \<Longrightarrow> \<forall>x\<in>set xs. f x = Some False"
  by (induction xs) (auto simp: bind_eq_Some_conv split: if_splits)

lemma filterM_all_False:
  "\<forall>x\<in>set xs. f x = Some False \<Longrightarrow> filterM f xs = Some []"
  by (induction xs) auto

lemma isolated_ghost_advances:
  assumes "allDirs st g = Some []"
  shows "moveGhost cfg dt fr r st g =
     Some (g\<lparr>g_dir := g_dir g,
             g_x := wrap (g_x g + real_of_int (fst (dirVec (g_dir g)))
                            * ((GHOST_SPEED cfg * (if fr then 0.7 else 1.0)) * dt * 6))
                      (real_of_int (cols st)),
             g_y := wrap (g_y g + real_of_int (snd (dirVec (g_dir g)))
                            * ((GHOST_SPEED cfg * (if fr then 0.7 else 1.0)) * dt * 6))
                      (real_of_int (rows st))\<rparr>)"
proof -
  from filterM_Nil[OF assms[unfolded allDirs_def]]
  have "choices st g = Some []"
    unfolding choices_def by (intro filterM_all_False) auto
  with assms have "chooseDir st fr r g = Some (g_dir g)"
    by (simp add: chooseDir_def pick_def)
  then show ?thesis by (simp add: moveGhost_def Let_def)
qed


text \<open>
  C9 (the code breaks it): \<open>world9\<close> is the world \<^verbatim>\<open>createWorld\<close> builds on \<open>maze9\<close>, where
  the tile of the third ghost has a wall on each side. The update moves that ghost
  from \<open>(12, 14)\<close> to \<open>(12, 13.91)\<close>. Put on the center of the same tile (a decision
  point, where \<^verbatim>\<open>all\<close> is empty and the old direction is kept) it moves as well, from
  \<open>(12.5, 14.5)\<close> to \<open>(12.5, 14.41)\<close>. Neither case raises an exception.
\<close>

theorem isolated_ghost_moves:
  "createWorld App_config maze9 = Some world9 \<and>
   ghosts world9 ! 2 = ghost ''inky'' 12 14 Up 0.95 ''#00ffff'' \<and>
   allDirs world9 (ghosts world9 ! 2) = Some [] \<and>
   update App_config onClear_mount (1/60) rnd0 world9 = Some (world9a, [Score 10]) \<and>
   ghosts world9a ! 2 = ghost ''inky'' 12 13.91 Up 0.95 ''#00ffff'' \<and>
   gNearCenter ghost9 \<and>
   allDirs world9 ghost9 = Some [] \<and>
   moveGhost App_config (1/60) False 0 world9 ghost9
     = Some (ghost ''inky'' 12.5 14.41 Up 0.95 ''#00ffff'')"
proof -
  have a: "allDirs world9 (ghosts world9 ! 2) = Some []"
    by (simp add: allDirs_def passable_def cellAt_def wrap_def world9_def ghost_def maze9_cells)
  have b: "allDirs world9 ghost9 = Some []"
    by (simp add: allDirs_def passable_def cellAt_def wrap_def world9_def ghost9_def ghost_def
        maze9_cells)
  have c: "choices world9 ghost9 = Some []"
    by (simp add: choices_def opposite_def passable_def cellAt_def wrap_def world9_def
        ghost9_def ghost_def maze9_cells)
  have d: "gNearCenter ghost9"
    by (simp add: gNearCenter_def ghost9_def ghost_def)
  have e: "chooseDir world9 False 0 ghost9 = Some Up"
    unfolding chooseDir_def c b by (simp add: pick_def ghost9_def ghost_def)
  have f: "moveGhost App_config (1/60) False 0 world9 ghost9
     = Some (ghost ''inky'' 12.5 14.41 Up 0.95 ''#00ffff'')"
    by (simp add: moveGhost_def d e Let_def)
       (simp add: world9_def ghost9_def ghost_def App_config_def wrap_def)
  have g: "ghosts world9 ! 2 = ghost ''inky'' 12 14 Up 0.95 ''#00ffff''"
    "ghosts world9a ! 2 = ghost ''inky'' 12 13.91 Up 0.95 ''#00ffff''"
    by (simp_all add: world9_def world9a_def)
  from a b d f g createWorld_maze9 update_world9 show ?thesis by blast
qed

section \<open>Ghost meets player\<close>

subsection \<open>A run that brings the fourth ghost onto the player\<close>

text \<open>
  A ghost and a player further apart than 0.6 along one axis do not meet.
\<close>

lemma far_apart:
  fixes a b :: real
  assumes "0.6 \<le> \<bar>a\<bar> \<or> 0.6 \<le> \<bar>b\<bar>"
  shows "\<not> a\<^sup>2 + b\<^sup>2 < 0.36"
proof -
  have sq: "0.36 \<le> c\<^sup>2" if "0.6 \<le> \<bar>c\<bar>" for c :: real
  proof -
    from that have "\<bar>0.6::real\<bar> \<le> \<bar>c\<bar>" by simp
    then have "(0.6::real)\<^sup>2 \<le> c\<^sup>2" by (rule abs_le_square_iff[THEN iffD1])
    then show ?thesis by (simp add: power2_eq_square)
  qed
  from assms show ?thesis
  proof
    assume "0.6 \<le> \<bar>a\<bar>"
    from sq[OF this] zero_le_power2[of b] show ?thesis by linarith
  next
    assume "0.6 \<le> \<bar>b\<bar>"
    from sq[OF this] zero_le_power2[of a] show ?thesis by linarith
  qed
qed

lemma no_hit_below: "g_y g + 0.6 \<le> p_y p \<Longrightarrow> hit g p = False"
  unfolding hit_iff by (simp only: simp_thms, intro far_apart) simp

lemma no_hit_left: "g_x g + 0.6 \<le> p_x p \<Longrightarrow> hit g p = False"
  unfolding hit_iff by (simp only: simp_thms, intro far_apart) simp

lemma no_hit_right: "p_x p + 0.6 \<le> g_x g \<Longrightarrow> hit g p = False"
  unfolding hit_iff by (simp only: simp_thms, intro far_apart) simp

text \<open>
  While the player stays below row 14.6 and out of the way of the fourth ghost, one
  update moves each ghost on by 0.09 in its direction and nothing else happens to
  them: they are on whole coordinates, so none of them chooses a direction.
\<close>

lemmas ghost_defs = upt4 ghostStep_def moveGhost_def gNearCenter_def collide_def ghost_def
  App_config_def wrap_def Let_def no_hit_below no_hit_left no_hit_right

lemma ghosts_cruise:
  assumes rng: "0 \<le> d" "d \<le> 12.9"
    and far: "14.6 \<le> p_y q" "12.6 \<le> p_x q" "p_x q \<le> 14.4 \<or> d + 0.09 + 14.6 \<le> p_y q"
  shows "forEachGhost (ghostStep App_config (1/60) False rnd) [0..<4] (cruise m n t q d)
           = Some (cruise m n t q (d + 0.09), [])"
  using far(3)
proof
  assume "p_x q \<le> 14.4"
  with rng far(1,2) show ?thesis
    by (simp add: cruise_def ghost_defs)
next
  assume "d + 0.09 + 14.6 \<le> p_y q"
  with rng far(1,2) show ?thesis
    by (simp add: cruise_def ghost_defs)
qed

lemma cruise_sel:
  "cols (cruise m n t p d) = 28" "rows (cruise m n t p d) = 31" "maze (cruise m n t p d) = m"
  "pellets (cruise m n t p d) = n" "powerTimer (cruise m n t p d) = t"
  "pacman (cruise m n t p d) = p" "length (ghosts (cruise m n t p d)) = 4"
  "(cruise m n t p d)\<lparr>pacman := q\<rparr> = cruise m n t q d"
  "(cruise m n t p d)\<lparr>powerTimer := u\<rparr> = cruise m n u p d"
  by (simp_all add: cruise_def)

lemma replicate_numeral: "replicate (numeral k) x = x # replicate (pred_numeral k) x"
  by (simp add: numeral_eq_Suc)

lemma updates_append:
  "updates cfg oc (xs @ ys) st = updates cfg oc xs st \<bind> updates cfg oc ys"
proof (induction xs arbitrary: st)
  case Nil
  show ?case by simp
next
  case (Cons a xs)
  show ?case by (cases a) (simp add: Cons.IH split: Option.bind_split)
qed

lemmas run_defs = step60_def replicate_numeral update_def movePacman_def passable_def cellAt_def
  wrap_def consume_def centerCoord_def pac_def Let_def cruise_sel ghosts_cruise

text \<open>
  The run, in a maze \<open>m\<close> with the pocket of \<open>mazeS\<close>: in 10 updates the player
  reaches the wall and is put on the center \<open>(13.5, 23.5)\<close> of its tile, where it is
  put back by every later update; after 85 updates the ghosts have travelled 7.65;
  the key \<^verbatim>\<open>d\<close> then turns the player right, and 13 updates later it is at
  \<open>(14.93, 23.5)\<close> with the fourth ghost at \<open>(15, 22.82)\<close>.
\<close>

lemma phaseA:
  assumes "maze_at m 23 12 = Some (Some 1)" and "maze_at m 23 13 = Some (Some 0)"
  shows "updates App_config oc (replicate 10 step60) (cruise m n 0 (pac 14 23 Left Left) 0)
    = Some (cruise m n 0 (pac 13.5 23.5 Left Left) 0.9)"
  using assms by (simp add: run_defs)

lemma cycle:
  assumes "maze_at m 23 12 = Some (Some 1)" and "maze_at m 23 13 = Some (Some 0)"
    and "0 \<le> d" and "d \<le> 12.4"
  shows "updates App_config oc (replicate 5 step60) (cruise m n 0 (pac 13.5 23.5 Left Left) d)
    = Some (cruise m n 0 (pac 13.5 23.5 Left Left) (d + 0.45))"
  using assms by (simp add: run_defs ac_simps)

lemma cycles_arith:
  fixes d w b :: real
  assumes "0 \<le> w" and "d + w * real (Suc j) \<le> b"
  shows "d + w \<le> b" and "d + w + w * real j \<le> b"
proof -
  have e: "w * real (Suc j) = w * real j + w" by (simp add: algebra_simps)
  have "0 \<le> w * real j" using assms(1) by simp
  with assms(2) e show "d + w \<le> b" and "d + w + w * real j \<le> b" by linarith+
qed

lemma cycles:
  assumes "maze_at m 23 12 = Some (Some 1)" and "maze_at m 23 13 = Some (Some 0)"
    and "0 \<le> d" and "d + 0.45 * real j \<le> 12.85"
  shows "updates App_config oc (replicate (5 * j) step60) (cruise m n 0 (pac 13.5 23.5 Left Left) d)
    = Some (cruise m n 0 (pac 13.5 23.5 Left Left) (d + 0.45 * real j))"
  using assms(3,4)
proof (induction j arbitrary: d)
  case 0
  show ?case by simp
next
  case (Suc j)
  have r: "replicate (5 * Suc j) step60 = replicate 5 step60 @ replicate (5 * j) step60"
    by (simp add: replicate_add[symmetric])
  have e: "0.45 * real (Suc j) = 0.45 * real j + 0.45" by (simp add: algebra_simps)
  have w: "(0::real) \<le> 0.45" by simp
  from cycles_arith(1)[OF w Suc.prems(2)] have d: "d \<le> 12.4" by simp
  from Suc.prems(1) have p: "0 \<le> d + 0.45" by simp
  note q = cycles_arith(2)[OF w Suc.prems(2)]
  from Suc.IH[OF p q] cycle[OF assms(1,2) Suc.prems(1) d, of oc n]
  show ?case unfolding r updates_append e by (simp add: ac_simps)
qed

lemma phaseC:
  assumes "maze_at m 23 13 = Some (Some 0)" and "maze_at m 23 14 = Some (Some 0)"
    and "maze_at m 23 15 = Some (Some c)" and "c \<noteq> 1"
  shows "updates App_config oc (replicate 13 step60) (cruise m n 0 (pac 13.5 23.5 Left Right) 7.65)
    = Some (cruise m n 0 (pac 14.93 23.5 Right Right) 8.82)"
  using assms by (simp add: run_defs)

lemma reach:
  assumes "maze_at m 23 12 = Some (Some 1)" and "maze_at m 23 13 = Some (Some 0)"
    and "maze_at m 23 14 = Some (Some 0)"
    and "maze_at m 23 15 = Some (Some c)" and "c \<noteq> 1"
  shows "updates App_config oc (replicate 85 step60) (cruise m n 0 (pac 14 23 Left Left) 0)
           = Some (cruise m n 0 (pac 13.5 23.5 Left Left) 7.65) \<and>
         input ''d'' (cruise m n 0 (pac 13.5 23.5 Left Left) 7.65)
           = cruise m n 0 (pac 13.5 23.5 Left Right) 7.65 \<and>
         updates App_config oc (replicate 13 step60) (cruise m n 0 (pac 13.5 23.5 Left Right) 7.65)
           = Some (cruise m n 0 (pac 14.93 23.5 Right Right) 8.82)"
proof -
  have r: "replicate 85 step60 = replicate 10 step60 @ replicate (5 * 15) step60"
    by (simp add: replicate_add[symmetric])
  have "updates App_config oc (replicate (5 * 15) step60) (cruise m n 0 (pac 13.5 23.5 Left Left) 0.9)
      = Some (cruise m n 0 (pac 13.5 23.5 Left Left) (0.9 + 0.45 * real (15::nat)))"
    by (rule cycles[OF assms(1,2)]) simp_all
  with phaseA[OF assms(1,2), of oc n]
  have a: "updates App_config oc (replicate 85 step60) (cruise m n 0 (pac 14 23 Left Left) 0)
           = Some (cruise m n 0 (pac 13.5 23.5 Left Left) 7.65)"
    unfolding r updates_append by simp
  have b: "input ''d'' (cruise m n 0 (pac 13.5 23.5 Left Left) 7.65)
           = cruise m n 0 (pac 13.5 23.5 Left Right) 7.65"
    by (simp add: input_def cruise_sel pac_def Let_def)
  from a b phaseC[OF assms(2-5), of oc n] show ?thesis by blast
qed

text \<open>The two mazes, and the run on each of them.\<close>

lemma upt3: "[0..<3] = [0, 1, 2]"
  by (simp add: upt_rec)

lemma countPellets_mazeS: "countPellets mazeS = 751"
  by code_simp

lemma countPellets_mazeP: "countPellets mazeP = 750"
  by code_simp

lemma createWorld_mazeS:
  "createWorld App_config mazeS = Some (cruise mazeS 751 0 (pac 14 23 Left Left) 0)"
  unfolding createWorld_def countPellets_mazeS
  by (simp add: mazeS_def cruise_def pac_def App_config_def wallRow_def pelletRow_def)

lemma createWorld_mazeP:
  "createWorld App_config mazeP = Some (cruise mazeP 750 0 (pac 14 23 Left Left) 0)"
  unfolding createWorld_def countPellets_mazeP
  by (simp add: mazeP_def cruise_def pac_def App_config_def wallRow_def pelletRow_def)

lemma mazeS_cells:
  "maze_at mazeS 23 12 = Some (Some 1)"
  "maze_at mazeS 23 13 = Some (Some 0)"
  "maze_at mazeS 23 14 = Some (Some 0)"
  "maze_at mazeS 23 15 = Some (Some 2)"
  by (simp_all add: maze_at_def mazeS_def wallRow_def pelletRow_def)

lemma mazeP_cells:
  "maze_at mazeP 23 12 = Some (Some 1)"
  "maze_at mazeP 23 13 = Some (Some 0)"
  "maze_at mazeP 23 14 = Some (Some 0)"
  "maze_at mazeP 23 15 = Some (Some 3)"
  "maze_at (maze_set mazeP 23 15 0) 23 15 = Some (Some 0)"
  by (simp_all add: maze_at_def maze_set_def mazeP_def wallRow_def pelletRow_def)

lemma reach_mazeS:
  "updates App_config oc (replicate 85 step60) (cruise mazeS 751 0 (pac 14 23 Left Left) 0)
     = Some (cruise mazeS 751 0 (pac 13.5 23.5 Left Left) 7.65) \<and>
   input ''d'' (cruise mazeS 751 0 (pac 13.5 23.5 Left Left) 7.65)
     = cruise mazeS 751 0 (pac 13.5 23.5 Left Right) 7.65 \<and>
   updates App_config oc (replicate 13 step60) (cruise mazeS 751 0 (pac 13.5 23.5 Left Right) 7.65)
     = Some (cruise mazeS 751 0 (pac 14.93 23.5 Right Right) 8.82)"
  by (rule reach[OF mazeS_cells]) simp

lemma reach_mazeP:
  "updates App_config oc (replicate 85 step60) (cruise mazeP 750 0 (pac 14 23 Left Left) 0)
     = Some (cruise mazeP 750 0 (pac 13.5 23.5 Left Left) 7.65) \<and>
   input ''d'' (cruise mazeP 750 0 (pac 13.5 23.5 Left Left) 7.65)
     = cruise mazeP 750 0 (pac 13.5 23.5 Left Right) 7.65 \<and>
   updates App_config oc (replicate 13 step60) (cruise mazeP 750 0 (pac 13.5 23.5 Left Right) 7.65)
     = Some (cruise mazeP 750 0 (pac 14.93 23.5 Right Right) 8.82)"
  by (rule reach[OF mazeP_cells(1-4)]) simp

text \<open>The updates that follow, evaluated.\<close>

lemma update_worldS98:
  "update App_config oc (1/60) rnd0 (cruise mazeS 751 0 (pac 14.93 23.5 Right Right) 8.82)
     = Some (worldS99, [Score 10, LifeLost])"
  by (simp add: engine_defs cruise_def pac_def worldS99_def mazeS_cells upt4)

lemma turnOf_worldS98:
  "turnOf App_config oc (1/60) rnd0 (cruise mazeS 751 0 (pac 14.93 23.5 Right Right) 8.82) 3
     = Some (worldS99t, ghost ''clyde'' 15 22.91 Down 0.9 ''#ffb852'', worldS99)"
  by (simp add: turnOf_def engine_defs cruise_def pac_def worldS99t_def worldS99_def mazeS_cells upt3)

lemma update_worldP98:
  "update App_config oc (1/60) rnd0 (cruise mazeP 750 0 (pac 14.93 23.5 Right Right) 8.82)
     = Some (cruise (maze_set mazeP 23 15 0) 750 (17950/3) (pac 15.04 23.5 Right Right) 8.883,
             [Score 50])"
  by (simp add: engine_defs cruise_def pac_def mazeP_cells upt4)

lemma update_worldP99:
  "update App_config oc (1/60) rnd0
      (cruise (maze_set mazeP 23 15 0) 750 (17950/3) (pac 15.04 23.5 Right Right) 8.883)
     = Some (worldP100, [Score 200])"
  by (simp add: engine_defs cruise_def pac_def worldP100_def mazeP_cells upt4)

lemma turnOf_worldP99:
  "turnOf App_config oc (1/60) rnd0
      (cruise (maze_set mazeP 23 15 0) 750 (17950/3) (pac 15.04 23.5 Right Right) 8.883) 3
     = Some (worldP100t, ghost ''clyde'' 15 22.946 Down 0.9 ''#ffb852'', worldP100)"
  by (simp add: turnOf_def engine_defs cruise_def pac_def worldP100t_def worldP100_def mazeP_cells upt3)

subsection \<open>The turns of the other ghosts\<close>

lemma forEachGhost_append:
  "forEachGhost f (xs @ ys) st =
     (case forEachGhost f xs st of
        None \<Rightarrow> None
      | Some (s1, e1) \<Rightarrow>
          (case forEachGhost f ys s1 of
             None \<Rightarrow> None
           | Some (s2, e2) \<Rightarrow> Some (s2, e1 @ e2)))"
proof (induction xs arbitrary: st)
  case Nil
  show ?case by (simp split: option.splits)
next
  case (Cons a xs)
  show ?case
    by (cases "f a st") (auto simp: Cons.IH split: option.splits Option.bind_splits)
qed

lemma mode_events:
  assumes "forEachGhost (ghostStep cfg dt fr rnd) is s = Some (s', ev)"
  shows "(fr \<longrightarrow> LifeLost \<notin> set ev) \<and> (\<not> fr \<longrightarrow> Score 200 \<notin> set ev) \<and> Score 50 \<notin> set ev"
  using forEachGhost_events[OF assms] by (auto split: if_splits)

lemma consume_events:
  assumes "consume cfg oc s1 = Some (s2, e1)"
  shows "LifeLost \<notin> set e1 \<and> Score 200 \<notin> set e1"
  using assms by (auto simp: consume_def Let_def bind_eq_Some_conv split: if_splits)

text \<open>In Normal mode a player and a ghost that are where a reset puts them stay there
  through the turns of the other ghosts.\<close>

lemma normal_keeps_player:
  assumes "forEachGhost (ghostStep cfg dt False rnd) is s = Some (s', ev)"
    and "pacman s = (pacman s)\<lparr>p_x := 14, p_y := 23, p_dir := Left, p_nx := Left\<rparr>"
  shows "pacman s' = pacman s"
  using assms
proof (induction "is" arbitrary: s ev)
  case Nil
  then show ?case by simp
next
  case (Cons i "is")
  from Cons.prems(1) obtain sa ea eb where
    a: "ghostStep cfg dt False rnd i s = Some (sa, ea)" and
    b: "forEachGhost (ghostStep cfg dt False rnd) is sa = Some (s', eb)"
    by (auto simp: bind_eq_Some_conv)
  from a Cons.prems(2) have p: "pacman sa = pacman s"
    by (auto simp: ghostStep_def bind_eq_Some_conv collide_def Let_def split: if_splits)
  with Cons.prems(2) have "pacman sa = (pacman sa)\<lparr>p_x := 14, p_y := 23, p_dir := Left, p_nx := Left\<rparr>"
    by simp
  from Cons.IH[OF b this] p show ?case by simp
qed

lemma normal_keeps_ghost:
  assumes "forEachGhost (ghostStep cfg dt False rnd) is s = Some (s', ev)"
    and "j \<notin> set is" and "j < length (ghosts s)"
    and "ghosts s ! j = (ghosts s ! j)\<lparr>g_x := 13 + real (j mod 2),
           g_y := 14 + (if j > 1 then 1 else 0), g_dir := Left\<rparr>"
  shows "ghosts s' ! j = ghosts s ! j"
  using assms
proof (induction "is" arbitrary: s ev)
  case Nil
  then show ?case by simp
next
  case (Cons i "is")
  from Cons.prems(1) obtain sa ea eb where
    a: "ghostStep cfg dt False rnd i s = Some (sa, ea)" and
    b: "forEachGhost (ghostStep cfg dt False rnd) is sa = Some (s', eb)"
    by (auto simp: bind_eq_Some_conv)
  from Cons.prems(2) have ij: "i \<noteq> j" and nj: "j \<notin> set is" by auto
  from a obtain g where co: "collide False i g s = (sa, ea)"
    by (auto simp: ghostStep_def bind_eq_Some_conv)
  have len: "length ((ghosts s)[i := g]) = length (ghosts s)" by simp
  from co ij Cons.prems(3,4) have g: "ghosts sa ! j = ghosts s ! j"
    by (auto simp: collide_def Let_def resetGhosts_nth len simp del: length_list_update
        split: if_splits)
  from ghostStep_frame(6)[OF a] Cons.prems(3) have l: "j < length (ghosts sa)" by simp
  from Cons.prems(4) g have "ghosts sa ! j = (ghosts sa ! j)\<lparr>g_x := 13 + real (j mod 2),
           g_y := 14 + (if j > 1 then 1 else 0), g_dir := Left\<rparr>" by simp
  from Cons.IH[OF b nj l this] g show ?case by simp
qed

text \<open>In Frightened mode a ghost turn touches that ghost only.\<close>

lemma frightened_keeps:
  assumes "forEachGhost (ghostStep cfg dt True rnd) is s = Some (s', ev)"
  shows "pacman s' = pacman s \<and> (j \<notin> set is \<longrightarrow> ghosts s' ! j = ghosts s ! j)"
  using assms
proof (induction "is" arbitrary: s ev)
  case Nil
  then show ?case by simp
next
  case (Cons i "is")
  from Cons.prems(1) obtain sa ea eb where
    a: "ghostStep cfg dt True rnd i s = Some (sa, ea)" and
    b: "forEachGhost (ghostStep cfg dt True rnd) is sa = Some (s', eb)"
    by (auto simp: bind_eq_Some_conv)
  from a have "pacman sa = pacman s \<and> (i \<noteq> j \<longrightarrow> ghosts sa ! j = ghosts s ! j)"
    by (auto simp: ghostStep_def bind_eq_Some_conv collide_def Let_def split: if_splits)
  with Cons.IH[OF b] show ?case by auto
qed

subsection \<open>The claim\<close>

text \<open>
  C4 (as found): on \<open>mazeS\<close> with the timer at 0 all along, update 99 of the run
  (85 updates, the key \<^verbatim>\<open>d\<close>, 13 updates, and this one) moves the player onto the
  pellet of tile \<open>(15, 23)\<close> and the fourth ghost to \<open>(15, 22.91)\<close>, closer than 0.6 to
  the player. The update emits a life-lost event, and a score event as well (the
  pellet eaten in the same step); the third ghost, created at \<open>(12, 14)\<close> heading up,
  ends the update at \<open>(13, 15)\<close> heading left, which is not where it was created.
\<close>

theorem life_lost_reset_counterexample:
  "createWorld App_config mazeS = Some (cruise mazeS 751 0 (pac 14 23 Left Left) 0) \<and>
   updates App_config onClear_mount (replicate 85 step60)
       (cruise mazeS 751 0 (pac 14 23 Left Left) 0)
     = Some (cruise mazeS 751 0 (pac 13.5 23.5 Left Left) 7.65) \<and>
   input ''d'' (cruise mazeS 751 0 (pac 13.5 23.5 Left Left) 7.65)
     = cruise mazeS 751 0 (pac 13.5 23.5 Left Right) 7.65 \<and>
   updates App_config onClear_mount (replicate 13 step60)
       (cruise mazeS 751 0 (pac 13.5 23.5 Left Right) 7.65)
     = Some (cruise mazeS 751 0 (pac 14.93 23.5 Right Right) 8.82) \<and>
   powerTimer (cruise mazeS 751 0 (pac 14.93 23.5 Right Right) 8.82) = 0 \<and>
   turnOf App_config onClear_mount (1/60) rnd0
       (cruise mazeS 751 0 (pac 14.93 23.5 Right Right) 8.82) 3
     = Some (worldS99t, ghost ''clyde'' 15 22.91 Down 0.9 ''#ffb852'', worldS99) \<and>
   hit (ghost ''clyde'' 15 22.91 Down 0.9 ''#ffb852'') (pacman worldS99t) \<and>
   update App_config onClear_mount (1/60) rnd0
       (cruise mazeS 751 0 (pac 14.93 23.5 Right Right) 8.82)
     = Some (worldS99, [Score 10, LifeLost]) \<and>
   ghosts (cruise mazeS 751 0 (pac 14 23 Left Left) 0) ! 2
     = ghost ''inky'' 12 14 Up 0.95 ''#00ffff'' \<and>
   ghosts worldS99 ! 2 = ghost ''inky'' 13 15 Left 0.95 ''#00ffff''"
proof -
  note r = reach_mazeS[of onClear_mount]
  have t: "powerTimer (cruise mazeS 751 0 (pac 14.93 23.5 Right Right) 8.82) = 0"
    by (simp add: cruise_sel)
  have h: "hit (ghost ''clyde'' 15 22.91 Down 0.9 ''#ffb852'') (pacman worldS99t)"
    by (simp add: hit_iff worldS99t_def pac_def ghost_def power2_eq_square)
  have g0: "ghosts (cruise mazeS 751 0 (pac 14 23 Left Left) 0) ! 2
      = ghost ''inky'' 12 14 Up 0.95 ''#00ffff''"
    by (simp add: cruise_def)
  have g1: "ghosts worldS99 ! 2 = ghost ''inky'' 13 15 Left 0.95 ''#00ffff''"
    by (simp add: worldS99_def)
  from createWorld_mazeS r t turnOf_worldS98[of onClear_mount] h
    update_worldS98[of onClear_mount] g0 g1
  show ?thesis by blast
qed

text \<open>
  C4 (amended): let an update return, and let a ghost, in its turn of that update and
  after its own move, be closer than 0.6 to the player. The mode of the update is
  read from the timer after the consumption of this step and before its decay: the
  configured duration if the step ate a power pellet (a \<open>Score 50\<close> event), the timer
  the update started with otherwise. If that value is positive (Frightened), the
  update emits a \<open>Score 200\<close> event and no life-lost event, the turn moves nothing but
  that ghost, which it puts at \<open>(13, 14)\<close> heading left, and the update ends with the
  player where it was in that turn and that ghost still there. Otherwise (Normal) the
  update emits a life-lost event and no \<open>Score 200\<close> event (the score of a pellet
  eaten in the same step is still emitted), the turn puts the player at \<open>(14, 23)\<close>
  with direction and wanted direction left and every ghost \<open>j\<close> at
  \<open>(13 + j mod 2, 14 + (if j > 1 then 1 else 0))\<close> heading left (the place and
  direction of creation for the first ghost only), and the update ends with the
  player and the ghosts up to that one there; the ghosts whose turn comes later move
  on from there. Whether or not a ghost comes close, a Frightened update emits no
  life-lost event and a Normal update no \<open>Score 200\<close> event.
\<close>

theorem proximity_in_update:
  assumes "update cfg oc dt rnd st = Some (st', ev)" and "idx < length (ghosts st)"
  shows "\<exists>sa g sb. turnOf cfg oc dt rnd st idx = Some (sa, g, sb) \<and>
     (if 0 < (if Score 50 \<in> set ev then POWER_DURATION_MS cfg else powerTimer st)
      then LifeLost \<notin> set ev \<and>
           (hit g (pacman sa) \<longrightarrow>
              Score 200 \<in> set ev \<and>
              pacman sb = pacman sa \<and>
              ghosts sb = (ghosts sa)[idx := g\<lparr>g_x := 13, g_y := 14, g_dir := Left\<rparr>] \<and>
              pacman st' = pacman sa \<and>
              ghosts st' ! idx = g\<lparr>g_x := 13, g_y := 14, g_dir := Left\<rparr>)
      else Score 200 \<notin> set ev \<and>
           (hit g (pacman sa) \<longrightarrow>
              LifeLost \<in> set ev \<and>
              pacman sb = (pacman sa)\<lparr>p_x := 14, p_y := 23, p_dir := Left, p_nx := Left\<rparr> \<and>
              (\<forall>j<length (ghosts st).
                 g_x (ghosts sb ! j) = 13 + real (j mod 2) \<and>
                 g_y (ghosts sb ! j) = 14 + (if j > 1 then 1 else 0) \<and>
                 g_dir (ghosts sb ! j) = Left) \<and>
              pacman st' = pacman sb \<and>
              (\<forall>j\<le>idx. ghosts st' ! j = ghosts sb ! j)))"
proof -
  from assms(1) obtain s1 s2 e1 e2 where
    mv: "movePacman dt st = Some s1" and
    co: "consume cfg oc s1 = Some (s2, e1)" and
    gh: "forEachGhost (ghostStep cfg dt (powerTimer s2 > 0) rnd) [0..<length (ghosts s2)]
       (s2\<lparr>powerTimer := max 0 (powerTimer s2 - dt * 1000)\<rparr>) = Some (st', e2)" and
    ev: "ev = e1 @ e2"
    by (rule update_phases)
  define fr where "fr = (powerTimer s2 > 0)"
  define s3 where "s3 = s2\<lparr>powerTimer := max 0 (powerTimer s2 - dt * 1000)\<rparr>"
  have n: "length (ghosts s2) = length (ghosts st)"
    using movePacman_frame(4)[OF mv] consume_ghosts[OF co] by simp
  have split: "[0..<length (ghosts s2)] = [0..<idx] @ idx # [Suc idx..<length (ghosts st)]"
  proof -
    from assms(2) have "[0..<idx + (length (ghosts st) - idx)] = [0..<idx] @ [idx..<idx + (length (ghosts st) - idx)]"
      by (intro upt_add_eq_append) simp
    with assms(2) have "[0..<length (ghosts st)] = [0..<idx] @ [idx..<length (ghosts st)]" by simp
    with upt_conv_Cons[OF assms(2)] n show ?thesis by simp
  qed
  from gh[folded fr_def s3_def, unfolded split forEachGhost_append]
  obtain sa ea sb eb ec where
    pre: "forEachGhost (ghostStep cfg dt fr rnd) [0..<idx] s3 = Some (sa, ea)" and
    turn: "ghostStep cfg dt fr rnd idx sa = Some (sb, eb)" and
    post: "forEachGhost (ghostStep cfg dt fr rnd) [Suc idx..<length (ghosts st)] sb = Some (st', ec)" and
    e2: "e2 = ea @ eb @ ec"
    by (auto simp: bind_eq_Some_conv split: option.splits)
  from turn obtain g where
    mg: "moveGhost cfg dt fr (rnd idx) sa (ghosts sa ! idx) = Some g" and
    cl: "collide fr idx g sa = (sb, eb)"
    by (auto simp: ghostStep_def bind_eq_Some_conv)
  have t: "turnOf cfg oc dt rnd st idx = Some (sa, g, sb)"
    using mv co pre mg cl
    by (simp add: turnOf_def Let_def fr_def s3_def)
  from mode_events[OF gh[folded fr_def]] consume_events[OF co] ev
  have excl: "(fr \<longrightarrow> LifeLost \<notin> set ev) \<and> (\<not> fr \<longrightarrow> Score 200 \<notin> set ev)"
    and e2_50: "Score 50 \<notin> set e2"
    by auto
  from consume_cases[OF co] movePacman_frame(3)[OF mv] e2_50 ev
  have timer: "powerTimer s2 = (if Score 50 \<in> set ev then POWER_DURATION_MS cfg else powerTimer st)"
    by auto
  have la: "length (ghosts sa) = length (ghosts st)"
    using forEachGhost_frame[OF pre] n by (simp add: s3_def)
  show ?thesis
  proof (cases fr)
    case True
    from post True
    have post': "forEachGhost (ghostStep cfg dt True rnd) [Suc idx..<length (ghosts st)] sb = Some (st', ec)"
      by simp
    have inner: "Score 200 \<in> set ev \<and> pacman sb = pacman sa \<and>
        ghosts sb = (ghosts sa)[idx := g\<lparr>g_x := 13, g_y := 14, g_dir := Left\<rparr>] \<and>
        pacman st' = pacman sa \<and>
        ghosts st' ! idx = g\<lparr>g_x := 13, g_y := 14, g_dir := Left\<rparr>"
      if h: "hit g (pacman sa)"
    proof -
      from cl h True have sb: "pacman sb = pacman sa"
        "ghosts sb = (ghosts sa)[idx := g\<lparr>g_x := 13, g_y := 14, g_dir := Left\<rparr>]"
        and eb: "eb = [Score 200]"
        by (auto simp: collide_def Let_def)
      from frightened_keeps[OF post', of idx]
      have "pacman st' = pacman sb" "ghosts st' ! idx = ghosts sb ! idx" by auto
      with sb eb e2 ev la assms(2) show ?thesis by simp
    qed
    from True timer fr_def excl t inner show ?thesis by auto
  next
    case False
    from post False
    have post': "forEachGhost (ghostStep cfg dt False rnd) [Suc idx..<length (ghosts st)] sb = Some (st', ec)"
      by simp
    have inner: "LifeLost \<in> set ev \<and>
        pacman sb = (pacman sa)\<lparr>p_x := 14, p_y := 23, p_dir := Left, p_nx := Left\<rparr> \<and>
        (\<forall>j<length (ghosts st).
           g_x (ghosts sb ! j) = 13 + real (j mod 2) \<and>
           g_y (ghosts sb ! j) = 14 + (if j > 1 then 1 else 0) \<and>
           g_dir (ghosts sb ! j) = Left) \<and>
        pacman st' = pacman sb \<and>
        (\<forall>j\<le>idx. ghosts st' ! j = ghosts sb ! j)"
      if h: "hit g (pacman sa)"
    proof -
      have len: "length ((ghosts sa)[idx := g]) = length (ghosts sa)" by simp
      from cl h False have psb: "pacman sb = (pacman sa)\<lparr>p_x := 14, p_y := 23, p_dir := Left, p_nx := Left\<rparr>"
        and gsb: "ghosts sb = resetGhosts ((ghosts sa)[idx := g])"
        and eb: "eb = [LifeLost]"
        by (auto simp: collide_def Let_def)
      have lb: "length (ghosts sb) = length (ghosts st)"
        unfolding gsb using la by (simp add: resetGhosts_def)
      have nth: "ghosts sb ! j = ((ghosts sa)[idx := g] ! j)\<lparr>g_x := 13 + real (j mod 2),
           g_y := 14 + (if j > 1 then 1 else 0), g_dir := Left\<rparr>" if "j < length (ghosts st)" for j
        unfolding gsb using that la by (intro resetGhosts_nth) simp
      have coords: "\<forall>j<length (ghosts st).
           g_x (ghosts sb ! j) = 13 + real (j mod 2) \<and>
           g_y (ghosts sb ! j) = 14 + (if j > 1 then 1 else 0) \<and>
           g_dir (ghosts sb ! j) = Left"
        using nth by simp
      have fx: "ghosts sb ! j = (ghosts sb ! j)\<lparr>g_x := 13 + real (j mod 2),
           g_y := 14 + (if j > 1 then 1 else 0), g_dir := Left\<rparr>" if "j < length (ghosts st)" for j
        using nth[OF that] by simp
      from psb have pfix: "pacman sb = (pacman sb)\<lparr>p_x := 14, p_y := 23, p_dir := Left, p_nx := Left\<rparr>"
        by simp
      from normal_keeps_player[OF post' pfix]
      have pst: "pacman st' = pacman sb" .
      have gst: "ghosts st' ! j = ghosts sb ! j" if "j \<le> idx" for j
      proof -
        from that assms(2) have jl: "j < length (ghosts sb)" using lb by simp
        from that have "j \<notin> set [Suc idx..<length (ghosts st)]" by simp
        from normal_keeps_ghost[OF post' this jl] fx[of j] jl lb
        show ?thesis by simp
      qed
      from eb e2 ev psb coords pst gst show ?thesis by simp
    qed
    from False timer fr_def excl t inner show ?thesis by auto
  qed
qed

text \<open>
  The theorem on three updates of the runs above: update 99 on \<open>mazeS\<close> (Normal, the
  fourth ghost meets the player), update 100 on \<open>mazeP\<close> (Frightened, the timer
  running since update 99, the fourth ghost meets the player), and update 99 on
  \<open>mazeP\<close> (Frightened by the power pellet eaten in that very step, the timer at 0
  before).
\<close>

theorem proximity_in_update_witness:
  "update App_config onClear_mount (1/60) rnd0
       (cruise mazeS 751 0 (pac 14.93 23.5 Right Right) 8.82)
     = Some (worldS99, [Score 10, LifeLost]) \<and>
   3 < length (ghosts (cruise mazeS 751 0 (pac 14.93 23.5 Right Right) 8.82)) \<and>
   powerTimer (cruise mazeS 751 0 (pac 14.93 23.5 Right Right) 8.82) = 0 \<and>
   Score 50 \<notin> set [Score 10, LifeLost] \<and>
   turnOf App_config onClear_mount (1/60) rnd0
       (cruise mazeS 751 0 (pac 14.93 23.5 Right Right) 8.82) 3
     = Some (worldS99t, ghost ''clyde'' 15 22.91 Down 0.9 ''#ffb852'', worldS99) \<and>
   hit (ghost ''clyde'' 15 22.91 Down 0.9 ''#ffb852'') (pacman worldS99t) \<and>
   LifeLost \<in> set [Score 10, LifeLost] \<and> Score 200 \<notin> set [Score 10, LifeLost] \<and>
   pacman worldS99 = (pacman worldS99t)\<lparr>p_x := 14, p_y := 23, p_dir := Left, p_nx := Left\<rparr> \<and>
   map (\<lambda>g. (g_x g, g_y g, g_dir g)) (ghosts worldS99)
     = [(13, 14, Left), (14, 14, Left), (13, 15, Left), (14, 15, Left)] \<and>
   update App_config onClear_mount (1/60) rnd0
       (cruise (maze_set mazeP 23 15 0) 750 (17950/3) (pac 15.04 23.5 Right Right) 8.883)
     = Some (worldP100, [Score 200]) \<and>
   3 < length (ghosts (cruise (maze_set mazeP 23 15 0) 750 (17950/3)
                          (pac 15.04 23.5 Right Right) 8.883)) \<and>
   0 < powerTimer (cruise (maze_set mazeP 23 15 0) 750 (17950/3)
                     (pac 15.04 23.5 Right Right) 8.883) \<and>
   Score 50 \<notin> set [Score 200] \<and>
   turnOf App_config onClear_mount (1/60) rnd0
       (cruise (maze_set mazeP 23 15 0) 750 (17950/3) (pac 15.04 23.5 Right Right) 8.883) 3
     = Some (worldP100t, ghost ''clyde'' 15 22.946 Down 0.9 ''#ffb852'', worldP100) \<and>
   hit (ghost ''clyde'' 15 22.946 Down 0.9 ''#ffb852'') (pacman worldP100t) \<and>
   Score 200 \<in> set [Score 200] \<and> LifeLost \<notin> set [Score 200] \<and>
   pacman worldP100 = pacman worldP100t \<and>
   ghosts worldP100 ! 3 = ghost ''clyde'' 13 14 Left 0.9 ''#ffb852'' \<and>
   update App_config onClear_mount (1/60) rnd0
       (cruise mazeP 750 0 (pac 14.93 23.5 Right Right) 8.82)
     = Some (cruise (maze_set mazeP 23 15 0) 750 (17950/3) (pac 15.04 23.5 Right Right) 8.883,
             [Score 50]) \<and>
   powerTimer (cruise mazeP 750 0 (pac 14.93 23.5 Right Right) 8.82) = 0 \<and>
   Score 50 \<in> set [Score 50] \<and> 0 < POWER_DURATION_MS App_config \<and>
   LifeLost \<notin> set [Score 50]"
proof -
  let ?S = "cruise mazeS 751 0 (pac 14.93 23.5 Right Right) 8.82"
  let ?P = "cruise (maze_set mazeP 23 15 0) 750 (17950/3) (pac 15.04 23.5 Right Right) 8.883"
  let ?Q = "cruise mazeP 750 0 (pac 14.93 23.5 Right Right) 8.82"
  let ?gS = "ghost ''clyde'' 15 22.91 Down 0.9 ''#ffb852''"
  let ?gP = "ghost ''clyde'' 15 22.946 Down 0.9 ''#ffb852''"
  note uS = update_worldS98[of onClear_mount]
  note uP = update_worldP99[of onClear_mount]
  note uQ = update_worldP98[of onClear_mount]
  note tS = turnOf_worldS98[of onClear_mount]
  note tP = turnOf_worldP99[of onClear_mount]
  have lS: "3 < length (ghosts ?S)" and lP: "3 < length (ghosts ?P)"
    and lQ: "3 < length (ghosts ?Q)"
    by (simp_all add: cruise_sel)
  have mS: "powerTimer ?S = 0" and mP: "0 < powerTimer ?P" and mQ: "powerTimer ?Q = 0"
    by (simp_all add: cruise_sel)
  have cfg: "0 < POWER_DURATION_MS App_config" by (simp add: App_config_def)
  have hS: "hit ?gS (pacman worldS99t)"
    by (simp add: hit_iff worldS99t_def pac_def ghost_def power2_eq_square)
  have hP: "hit ?gP (pacman worldP100t)"
    by (simp add: hit_iff worldP100t_def pac_def ghost_def power2_eq_square)
  from proximity_in_update[OF uS lS] tS hS mS
  have a: "LifeLost \<in> set [Score 10, LifeLost] \<and> Score 200 \<notin> set [Score 10, LifeLost] \<and>
      pacman worldS99 = (pacman worldS99t)\<lparr>p_x := 14, p_y := 23, p_dir := Left, p_nx := Left\<rparr>"
    by simp
  have a': "map (\<lambda>g. (g_x g, g_y g, g_dir g)) (ghosts worldS99)
     = [(13, 14, Left), (14, 14, Left), (13, 15, Left), (14, 15, Left)]"
    by (simp add: worldS99_def ghost_def)
  have lt: "length (ghosts worldP100t) = 4" by (simp add: worldP100t_def)
  from proximity_in_update[OF uP lP] tP hP mP lt
  have b: "Score 200 \<in> set [Score 200] \<and> LifeLost \<notin> set [Score 200] \<and>
      pacman worldP100 = pacman worldP100t \<and>
      ghosts worldP100 ! 3 = ?gP\<lparr>g_x := 13, g_y := 14, g_dir := Left\<rparr>"
    by simp
  then have b': "ghosts worldP100 ! 3 = ghost ''clyde'' 13 14 Left 0.9 ''#ffb852''"
    by (simp add: ghost_def)
  from proximity_in_update[OF uQ lQ] cfg
  have c: "LifeLost \<notin> set [Score 50]"
    by auto
  have e: "Score 50 \<notin> set [Score 10, LifeLost]" "Score 50 \<notin> set [Score 200]"
    "Score 50 \<in> set [Score 50]" by simp_all
  from uS lS mS tS hS a a' uP lP mP tP hP b b' uQ mQ cfg c e show ?thesis by blast
qed

end
